theory Spec2Isabelle
  imports Main "HOL-Library.List_Lexorder" "HOL-Library.Char_ord"
begin

section \<open>Python values, errors and built-ins used by the protocol\<close>

text \<open>
  Every exception the modelled code can raise is a value. The first five are Python
  built-in exceptions, the next four are the classes of \<^verbatim>\<open>protocol/channel.py\<close>
  (\<open>ChannelError\<close> stands for the base class raised directly by the self-checks), the
  next two are those of \<^verbatim>\<open>protocol/ledger.py\<close>. \<open>RngExhausted\<close> is not an
  exception: the random source is a finite tape of draws, and a rejection loop that
  has used the whole tape has not returned.
\<close>

datatype error =
    ValueError | ZeroDivisionError | OverflowError | KeyError | TypeError
  | ChannelError | InsufficientBalanceError | InvalidParticipantError | InvalidAmountError
  | UnknownChannelError | InvalidSettlementError
  | RngExhausted

definition ebind :: "error + 'a \<Rightarrow> ('a \<Rightarrow> error + 'b) \<Rightarrow> error + 'b" where
  "ebind m f = (case m of Inl e \<Rightarrow> Inl e | Inr x \<Rightarrow> f x)"

text \<open>Python's \<^verbatim>\<open>a % b\<close> on integers: floored, as \<open>mod\<close> on \<open>int\<close>, but it raises on 0.\<close>

definition py_mod :: "int \<Rightarrow> int \<Rightarrow> error + int" where
  "py_mod a b = (if b = 0 then Inl ZeroDivisionError else Inr (a mod b))"

text \<open>
  The inverse that \<^verbatim>\<open>pow\<close> uses for a negative exponent: the one residue in
  \<open>[0, n)\<close> whose product with \<open>a\<close> is 1 modulo \<open>n\<close>, if there is one.
\<close>

definition invmod :: "int \<Rightarrow> int \<Rightarrow> int option" where
  "invmod a n = find (\<lambda>x. (a * x) mod n = 1 mod n) [0..n - 1]"

text \<open>
  Python's three-argument \<^verbatim>\<open>pow(base, exponent, modulus)\<close>: modulus 0 raises
  ValueError; the result has the sign of the modulus; a negative exponent inverts the
  base modulo \<open>|modulus|\<close> first and raises ValueError when it is not invertible.
\<close>

definition py_pow :: "int \<Rightarrow> int \<Rightarrow> int \<Rightarrow> error + int" where
  "py_pow b e m =
     (if m = 0 then Inl ValueError
      else if 0 \<le> e then Inr (b ^ nat e mod m)
      else (case invmod b \<bar>m\<bar> of
              None \<Rightarrow> Inl ValueError
            | Some i \<Rightarrow> Inr (i ^ nat (- e) mod m)))"

text \<open>
  Byte strings and text are both \<open>string\<close>: a \<open>char\<close> is a byte, and a Python
  \<^verbatim>\<open>str\<close> is represented by its UTF-8 encoding, so \<^verbatim>\<open>.encode("utf-8")\<close> is
  the identity.
\<close>

type_synonym bytes = string

definition from_bytes_big :: "bytes \<Rightarrow> int" where
  "from_bytes_big bs = foldl (\<lambda>acc c. acc * 256 + of_char c) 0 bs"

fun be_bytes :: "nat \<Rightarrow> nat \<Rightarrow> bytes" where
  "be_bytes 0 v = []"
| "be_bytes (Suc n) v = be_bytes n (v div 256) @ [char_of (v mod 256)]"

text \<open>\<^verbatim>\<open>value.to_bytes(length, "big")\<close>, unsigned: OverflowError when it does not fit.\<close>

definition to_bytes_big :: "int \<Rightarrow> nat \<Rightarrow> error + bytes" where
  "to_bytes_big v n =
     (if v < 0 \<or> 256 ^ n \<le> v then Inl OverflowError else Inr (be_bytes n (nat v)))"

fun bit_length_nat :: "nat \<Rightarrow> nat" where
  "bit_length_nat n = (if n = 0 then 0 else Suc (bit_length_nat (n div 2)))"

declare bit_length_nat.simps [simp del]

definition bit_length :: "int \<Rightarrow> nat" where
  "bit_length v = bit_length_nat (nat \<bar>v\<bar>)"

subsection \<open>Hexadecimal and decimal text\<close>

definition hex_digit :: "nat \<Rightarrow> char" where
  "hex_digit d = ''0123456789abcdef'' ! d"

fun hex_nat :: "nat \<Rightarrow> string" where
  "hex_nat n = (if n < 16 then [hex_digit n] else hex_nat (n div 16) @ [hex_digit (n mod 16)])"

declare hex_nat.simps [simp del]

text \<open>\<^verbatim>\<open>format(v, "x")\<close>\<close>

definition format_x :: "int \<Rightarrow> string" where
  "format_x v = (if v < 0 then CHR ''-'' # hex_nat (nat (- v)) else hex_nat (nat v))"

definition hex_val :: "char \<Rightarrow> nat option" where
  "hex_val c =
     (let n = (of_char c :: nat) in
      if 48 \<le> n \<and> n \<le> 57 then Some (n - 48)
      else if 97 \<le> n \<and> n \<le> 102 then Some (n - 87)
      else if 65 \<le> n \<and> n \<le> 70 then Some (n - 55)
      else None)"

text \<open>
  ASCII white space, as \<^verbatim>\<open>int\<close> and \<^verbatim>\<open>bytes.fromhex\<close> skip it: tab, line feed,
  vertical tab, form feed, carriage return and space.
\<close>

definition is_space :: "char \<Rightarrow> bool" where
  "is_space c = (let n = (of_char c :: nat) in (9 \<le> n \<and> n \<le> 13) \<or> n = 32)"

text \<open>
  The digits of \<^verbatim>\<open>int(s, 16)\<close>: hexadecimal digits with single underscores between
  them. The result is the value and the text after the digits; \<open>None\<close> is a doubled
  or a trailing underscore. \<open>pu\<close> says that the previous character was an underscore.
\<close>

fun scan_digits :: "nat \<Rightarrow> bool \<Rightarrow> string \<Rightarrow> (nat \<times> string) option" where
  "scan_digits acc pu [] = (if pu then None else Some (acc, []))"
| "scan_digits acc pu (c # cs) =
     (if c = CHR ''_'' then (if pu then None else scan_digits acc True cs)
      else (case hex_val c of
              Some d \<Rightarrow> scan_digits (acc * 16 + d) False cs
            | None \<Rightarrow> if pu then None else Some (acc, c # cs)))"

text \<open>
  \<^verbatim>\<open>int(s, 16)\<close> on a text: white space around, an optional sign, an optional
  \<^verbatim>\<open>0x\<close> or \<^verbatim>\<open>0X\<close> prefix (one underscore may follow it), then one or more digits
  in either case with single underscores between them; anything else is a ValueError.
  This is Python's grammar for ASCII text and for bytes. In a \<^verbatim>\<open>str\<close> Python also
  takes Unicode white space and Unicode decimal digits outside ASCII, from a table that
  depends on its version; here a character outside ASCII is a ValueError.
\<close>

definition int_of_hex :: "string \<Rightarrow> error + int" where
  "int_of_hex s =
     (let s1 = dropWhile is_space s;
          (neg, s2) = (case s1 of
                         c # r \<Rightarrow> if c = CHR ''-'' then (True, r)
                                  else if c = CHR ''+'' then (False, r) else (False, s1)
                       | [] \<Rightarrow> (False, s1));
          s3 = (case s2 of
                  a # b # r \<Rightarrow>
                    if a = CHR ''0'' \<and> (b = CHR ''x'' \<or> b = CHR ''X'')
                    then (case r of u # r' \<Rightarrow> if u = CHR ''_'' then r' else r | [] \<Rightarrow> r)
                    else s2
                | _ \<Rightarrow> s2)
      in case s3 of
           [] \<Rightarrow> Inl ValueError
         | c # r \<Rightarrow>
             if hex_val c = None then Inl ValueError
             else (case scan_digits 0 False s3 of
                     None \<Rightarrow> Inl ValueError
                   | Some (n, rest) \<Rightarrow>
                       if dropWhile is_space rest = []
                       then Inr (if neg then - int n else int n)
                       else Inl ValueError))"

text \<open>
  \<^verbatim>\<open>bytes.hex()\<close>, and \<^verbatim>\<open>bytes.fromhex\<close>: pairs of hexadecimal digits, with ASCII
  white space skipped before each pair and at the end; anything else, a character
  outside ASCII too, is a ValueError.
\<close>

fun bytes_hex :: "bytes \<Rightarrow> string" where
  "bytes_hex [] = []"
| "bytes_hex (c # cs) =
     hex_digit (of_char c div 16) # hex_digit (of_char c mod 16) # bytes_hex cs"

fun bytes_fromhex :: "string \<Rightarrow> error + bytes" where
  "bytes_fromhex [] = Inr []"
| "bytes_fromhex (c # cs) =
     (if is_space c then bytes_fromhex cs
      else (case hex_val c of
              None \<Rightarrow> Inl ValueError
            | Some a \<Rightarrow>
                (case cs of
                   [] \<Rightarrow> Inl ValueError
                 | d # ds \<Rightarrow>
                     (case hex_val d of
                        None \<Rightarrow> Inl ValueError
                      | Some b \<Rightarrow>
                          (case bytes_fromhex ds of
                             Inl e \<Rightarrow> Inl e
                           | Inr bs \<Rightarrow> Inr (char_of (a * 16 + b) # bs))))))"

fun dec_nat :: "nat \<Rightarrow> string" where
  "dec_nat n = (if n < 10 then [hex_digit n] else dec_nat (n div 10) @ [hex_digit (n mod 10)])"

declare dec_nat.simps [simp del]

text \<open>
  \<^verbatim>\<open>str(v)\<close> for an integer. (The limit that recent Python versions put on the
  number of decimal digits of this conversion is not modelled.)
\<close>

definition str_int :: "int \<Rightarrow> string" where
  "str_int v = (if v < 0 then CHR ''-'' # dec_nat (nat (- v)) else dec_nat (nat v))"

text \<open>\<^verbatim>\<open>sep.join(pieces)\<close>\<close>

fun join :: "string \<Rightarrow> string list \<Rightarrow> string" where
  "join sep [] = []"
| "join sep [x] = x"
| "join sep (x # y # ys) = x @ sep @ join sep (y # ys)"

section \<open>crypto/pedersen.py\<close>

text \<open>
  \<^verbatim>\<open>hashlib.sha256\<close> is a library function and is a parameter \<open>sha\<close> of every
  definition that hashes: \<open>sha bs\<close> is the digest of the bytes \<open>bs\<close>. The random
  source is a tape: the list of the values that successive calls of
  \<^verbatim>\<open>secrets.randbelow(params.q)\<close> return.
\<close>

type_synonym sha256 = "bytes \<Rightarrow> bytes"
type_synonym tape = "nat list"

definition P_HEX :: string where
  "P_HEX =
     ''FFFFFFFFFFFFFFFFC90FDAA22168C234C4C6628B80DC1CD1'' @
     ''29024E088A67CC74020BBEA63B139B22514A08798E3404DD'' @
     ''EF9519B3CD3A431B302B0A6DF25F14374FE1356D6D51C245'' @
     ''E485B576625E7EC6F44C42E9A63A3620FFFFFFFFFFFFFFFF''"

record CommitmentParameters =
  p :: int
  q :: int
  g :: int
  h :: int

datatype Commitment = Commitment (commitment_value: int)

datatype CommitmentOpening = CommitmentOpening (randomness: int)

record CommitmentProof =
  t :: int
  response_m :: int
  response_r :: int

definition PROOF_DOMAIN_SEPARATOR :: bytes where
  "PROOF_DOMAIN_SEPARATOR = ''pedersen/opening-proof/v1''"

definition pow' :: "int \<Rightarrow> int \<Rightarrow> int \<Rightarrow> error + int" where
  "pow' base exponent modulus = py_pow base exponent modulus"

text \<open>
  The loop of \<^verbatim>\<open>_hash_to_scalar\<close>, from \<open>attempt\<close> on. It is bounded:
  \<^verbatim>\<open>attempt.to_bytes(4, "big")\<close> raises OverflowError at \<open>2 ^ 32\<close>.
\<close>

function hash_to_scalar_from :: "sha256 \<Rightarrow> bytes \<Rightarrow> int \<Rightarrow> nat \<Rightarrow> error + int" where
  "hash_to_scalar_from sha seed qq attempt =
     (case to_bytes_big (int attempt) 4 of
        Inl e \<Rightarrow> Inl e
      | Inr suffix \<Rightarrow>
          (case py_mod (from_bytes_big (sha (seed @ suffix))) qq of
             Inl e \<Rightarrow> Inl e
           | Inr scalar \<Rightarrow>
               if scalar \<noteq> 0 then Inr scalar
               else hash_to_scalar_from sha seed qq (attempt + 1)))"
  by pat_completeness auto
termination
  by (relation "measure (\<lambda>(sha, seed, qq, attempt). 2 ^ 32 - attempt)")
     (auto simp: to_bytes_big_def split: if_splits)

declare hash_to_scalar_from.simps [simp del]

definition hash_to_scalar :: "sha256 \<Rightarrow> bytes \<Rightarrow> int \<Rightarrow> error + int" where
  "hash_to_scalar sha seed qq = hash_to_scalar_from sha seed qq 0"

definition default_parameters :: "sha256 \<Rightarrow> error + CommitmentParameters" where
  "default_parameters sha =
     ebind (int_of_hex P_HEX) (\<lambda>pp.
     let qq = (pp - 1) div 2; gg = 2 in
     ebind (hash_to_scalar sha ''pedersen-h-generator'' qq) (\<lambda>s.
     ebind (pow' gg s pp) (\<lambda>hh.
     Inr \<lparr>p = pp, q = qq, g = gg, h = hh\<rparr>)))"

fun random_scalar :: "CommitmentParameters \<Rightarrow> tape \<Rightarrow> error + (int \<times> tape)" where
  "random_scalar P [] = (if q P \<le> 0 then Inl ValueError else Inl RngExhausted)"
| "random_scalar P (k # ks) =
     (if q P \<le> 0 then Inl ValueError
      else if k \<noteq> 0 then Inr (int k, ks)
      else random_scalar P ks)"

definition commit ::
  "CommitmentParameters \<Rightarrow> int \<Rightarrow> int option \<Rightarrow> tape
     \<Rightarrow> error + ((Commitment \<times> CommitmentOpening) \<times> tape)" where
  "commit P message rnd tp =
     ebind (case rnd of Some r \<Rightarrow> Inr (r, tp) | None \<Rightarrow> random_scalar P tp) (\<lambda>(r, tp').
     ebind (py_mod message (q P)) (\<lambda>m.
     ebind (pow' (g P) m (p P)) (\<lambda>a.
     ebind (pow' (h P) r (p P)) (\<lambda>b.
     ebind (py_mod (a * b) (p P)) (\<lambda>v.
     Inr ((Commitment v, CommitmentOpening r), tp'))))))"

definition verify ::
  "CommitmentParameters \<Rightarrow> Commitment \<Rightarrow> int \<Rightarrow> CommitmentOpening \<Rightarrow> error + bool" where
  "verify P commitment message opening =
     ebind (py_mod (commitment_value commitment) (p P)) (\<lambda>lhs.
     ebind (py_mod message (q P)) (\<lambda>m.
     ebind (pow' (g P) m (p P)) (\<lambda>a.
     ebind (pow' (h P) (randomness opening) (p P)) (\<lambda>b.
     ebind (py_mod (a * b) (p P)) (\<lambda>rhs.
     Inr (lhs = rhs))))))"

fun add_commitments_from :: "CommitmentParameters \<Rightarrow> int \<Rightarrow> Commitment list \<Rightarrow> error + int" where
  "add_commitments_from P acc [] = Inr acc"
| "add_commitments_from P acc (c # cs) =
     ebind (py_mod (acc * commitment_value c) (p P)) (\<lambda>acc'. add_commitments_from P acc' cs)"

definition add_commitments :: "CommitmentParameters \<Rightarrow> Commitment list \<Rightarrow> error + Commitment" where
  "add_commitments P commitments =
     ebind (add_commitments_from P 1 commitments) (\<lambda>acc. Inr (Commitment acc))"

fun add_messages_from :: "CommitmentParameters \<Rightarrow> int \<Rightarrow> int list \<Rightarrow> error + int" where
  "add_messages_from P tot [] = Inr tot"
| "add_messages_from P tot (m # ms) =
     ebind (py_mod (tot + m) (q P)) (\<lambda>tot'. add_messages_from P tot' ms)"

definition add_messages :: "CommitmentParameters \<Rightarrow> int list \<Rightarrow> error + int" where
  "add_messages P messages = add_messages_from P 0 messages"

fun add_openings_from ::
  "CommitmentParameters \<Rightarrow> int \<Rightarrow> CommitmentOpening list \<Rightarrow> error + int" where
  "add_openings_from P tot [] = Inr tot"
| "add_openings_from P tot (opening # os) =
     ebind (py_mod (tot + randomness opening) (q P)) (\<lambda>tot'. add_openings_from P tot' os)"

definition add_openings ::
  "CommitmentParameters \<Rightarrow> CommitmentOpening list \<Rightarrow> error + CommitmentOpening" where
  "add_openings P openings =
     ebind (add_openings_from P 0 openings) (\<lambda>tot. Inr (CommitmentOpening tot))"

definition negate_commitment :: "CommitmentParameters \<Rightarrow> Commitment \<Rightarrow> error + Commitment" where
  "negate_commitment P commitment =
     ebind (pow' (commitment_value commitment) (p P - 2) (p P)) (\<lambda>inverse.
     Inr (Commitment inverse))"

definition commitment_difference ::
  "CommitmentParameters \<Rightarrow> Commitment \<Rightarrow> Commitment \<Rightarrow> error + Commitment" where
  "commitment_difference P left right =
     ebind (negate_commitment P right) (\<lambda>negated. add_commitments P [left, negated])"

definition serialize_commitment :: "Commitment \<Rightarrow> string" where
  "serialize_commitment commitment = format_x (commitment_value commitment)"

definition deserialize_commitment :: "string \<Rightarrow> error + Commitment" where
  "deserialize_commitment hex_value = ebind (int_of_hex hex_value) (\<lambda>v. Inr (Commitment v))"

definition serialize_opening :: "CommitmentOpening \<Rightarrow> string" where
  "serialize_opening opening = format_x (randomness opening)"

definition deserialize_opening :: "string \<Rightarrow> error + CommitmentOpening" where
  "deserialize_opening hex_value = ebind (int_of_hex hex_value) (\<lambda>v. Inr (CommitmentOpening v))"

definition int_to_bytes :: "int \<Rightarrow> nat \<Rightarrow> error + bytes" where
  "int_to_bytes v n = to_bytes_big v n"

definition commitment_byte_length :: "CommitmentParameters \<Rightarrow> nat" where
  "commitment_byte_length P = (bit_length (p P) + 7) div 8"

definition compute_challenge ::
  "sha256 \<Rightarrow> CommitmentParameters \<Rightarrow> Commitment \<Rightarrow> int \<Rightarrow> bytes \<Rightarrow> error + int" where
  "compute_challenge sha P commitment t_value context =
     (let byte_length = commitment_byte_length P in
      ebind (py_mod (commitment_value commitment) (p P)) (\<lambda>cv.
      ebind (int_to_bytes cv byte_length) (\<lambda>cb.
      ebind (py_mod t_value (p P)) (\<lambda>tv.
      ebind (int_to_bytes tv byte_length) (\<lambda>tb.
      ebind (py_mod (from_bytes_big (sha (PROOF_DOMAIN_SEPARATOR @ context @ cb @ tb))) (q P))
        (\<lambda>challenge.
      if challenge = 0 then Inr 1 else Inr challenge))))))"

definition prove_opening ::
  "sha256 \<Rightarrow> CommitmentParameters \<Rightarrow> int \<Rightarrow> CommitmentOpening \<Rightarrow> Commitment \<Rightarrow> bytes \<Rightarrow> tape
     \<Rightarrow> error + (CommitmentProof \<times> tape)" where
  "prove_opening sha P message opening commitment context tp =
     ebind (random_scalar P tp) (\<lambda>(w_m, tp1).
     ebind (random_scalar P tp1) (\<lambda>(w_r, tp2).
     ebind (pow' (g P) w_m (p P)) (\<lambda>a.
     ebind (pow' (h P) w_r (p P)) (\<lambda>b.
     ebind (py_mod (a * b) (p P)) (\<lambda>t_value.
     ebind (compute_challenge sha P commitment t_value context) (\<lambda>challenge.
     ebind (py_mod message (q P)) (\<lambda>m.
     ebind (py_mod (w_m + challenge * m) (q P)) (\<lambda>rm.
     ebind (py_mod (w_r + challenge * randomness opening) (q P)) (\<lambda>rr.
     Inr (\<lparr>t = t_value, response_m = rm, response_r = rr\<rparr>, tp2))))))))))"

definition verify_opening_proof ::
  "sha256 \<Rightarrow> CommitmentParameters \<Rightarrow> Commitment \<Rightarrow> CommitmentProof \<Rightarrow> bytes \<Rightarrow> error + bool" where
  "verify_opening_proof sha P commitment prf context =
     ebind (compute_challenge sha P commitment (t prf) context) (\<lambda>challenge.
     ebind (pow' (g P) (response_m prf) (p P)) (\<lambda>a.
     ebind (pow' (h P) (response_r prf) (p P)) (\<lambda>b.
     ebind (py_mod (a * b) (p P)) (\<lambda>left.
     ebind (py_mod (commitment_value commitment) (p P)) (\<lambda>cv.
     ebind (pow' cv challenge (p P)) (\<lambda>c.
     ebind (py_mod (t prf * c) (p P)) (\<lambda>right.
     Inr (left = right))))))))"

definition serialize_proof :: "CommitmentProof \<Rightarrow> (string \<times> string) list" where
  "serialize_proof prf =
     [(''t'', format_x (t prf)),
      (''response_m'', format_x (response_m prf)),
      (''response_r'', format_x (response_r prf))]"

section \<open>crypto/signing.py\<close>

text \<open>
  The Ed25519 primitives of PyNaCl are a library and are a parameter: a signing key, a
  verification key and a signature are the raw bytes the wrappers hold. \<open>vk_verify\<close> is
  \<^verbatim>\<open>VerifyKey.verify\<close>: \<open>Inr False\<close> is the BadSignatureError the wrapper catches,
  \<open>Inl\<close> any other exception of the library, which the wrapper lets through.
\<close>

record sig_scheme =
  sk_verify_key :: "bytes \<Rightarrow> bytes"
  sk_sign :: "bytes \<Rightarrow> bytes \<Rightarrow> bytes"
  vk_verify :: "bytes \<Rightarrow> bytes \<Rightarrow> bytes \<Rightarrow> error + bool"

section \<open>Dictionaries\<close>

text \<open>
  A Python dict is an association list in insertion order: assigning to a key that is
  present keeps its place, a new key goes to the end.
\<close>

fun dict_set :: "('k \<times> 'v) list \<Rightarrow> 'k \<Rightarrow> 'v \<Rightarrow> ('k \<times> 'v) list" where
  "dict_set [] k v = [(k, v)]"
| "dict_set ((k', v') # d) k v = (if k' = k then (k, v) # d else (k', v') # dict_set d k v)"

definition dict_update :: "('k \<times> 'v) list \<Rightarrow> ('k \<times> 'v) list \<Rightarrow> ('k \<times> 'v) list" where
  "dict_update d other = foldl (\<lambda>d' (k, v). dict_set d' k v) d other"

definition dict_keys :: "('k \<times> 'v) list \<Rightarrow> 'k list" where
  "dict_keys d = map fst d"

text \<open>\<^verbatim>\<open>d[k]\<close>, which raises KeyError.\<close>

definition dict_item :: "('k \<times> 'v) list \<Rightarrow> 'k \<Rightarrow> error + 'v" where
  "dict_item d k = (case map_of d k of None \<Rightarrow> Inl KeyError | Some v \<Rightarrow> Inr v)"

section \<open>protocol/channel.py\<close>

record ChannelParticipant =
  participant_id :: string
  signing_key :: bytes

record ChannelState =
  sequence :: int
  balances :: "(string \<times> int) list"
  commitments :: "(string \<times> Commitment) list"
  openings :: "(string \<times> CommitmentOpening) list"
  proofs :: "(string \<times> CommitmentProof) list"
  signatures :: "(string \<times> bytes) list"

record Channel =
  channel_id :: string
  params :: CommitmentParameters
  participants :: "(string \<times> ChannelParticipant) list"
  state :: ChannelState
  history :: "ChannelState list"

definition compute_state_digest ::
  "sha256 \<Rightarrow> string \<Rightarrow> int \<Rightarrow> (string \<times> Commitment) list \<Rightarrow> bytes" where
  "compute_state_digest sha cid seq cms =
     (let pieces = [cid, str_int seq] @
                   map (\<lambda>(pid, c). serialize_commitment c) (sort_key fst cms)
      in sha (join ''|'' pieces))"

definition proof_context :: "string \<Rightarrow> int \<Rightarrow> string \<Rightarrow> bytes" where
  "proof_context cid seq pid = cid @ ''|'' @ str_int seq @ ''|'' @ pid @ ''|opening-proof''"

text \<open>\<^verbatim>\<open>Channel._other\<close>\<close>

definition other :: "string \<Rightarrow> error + string" where
  "other pid =
     (if pid = ''alice'' then Inr ''bob''
      else if pid = ''bob'' then Inr ''alice''
      else Inl InvalidParticipantError)"

text \<open>
  The loop of \<^verbatim>\<open>Channel.open\<close> over \<^verbatim>\<open>balances.items()\<close>; the three
  dictionaries it fills are the accumulator.
\<close>

fun open_loop ::
  "sha256 \<Rightarrow> CommitmentParameters \<Rightarrow> string \<Rightarrow> (string \<times> int) list
     \<Rightarrow> (string \<times> Commitment) list \<times> (string \<times> CommitmentOpening) list
          \<times> (string \<times> CommitmentProof) list
     \<Rightarrow> tape
     \<Rightarrow> error + (((string \<times> Commitment) list \<times> (string \<times> CommitmentOpening) list
                  \<times> (string \<times> CommitmentProof) list) \<times> tape)" where
  "open_loop sha P cid [] acc tp = Inr (acc, tp)"
| "open_loop sha P cid ((pid, balance) # rest) (cms, ops, prs) tp =
     ebind (commit P balance None tp) (\<lambda>((commitment, opening), tp1).
     let context = proof_context cid 0 pid in
     ebind (prove_opening sha P balance opening commitment context tp1) (\<lambda>(prf, tp2).
     ebind (verify_opening_proof sha P commitment prf context) (\<lambda>ok.
     if \<not> ok then Inl ChannelError
     else open_loop sha P cid rest
            (dict_set cms pid commitment, dict_set ops pid opening, dict_set prs pid prf) tp2)))"

text \<open>
  \<^verbatim>\<open>Channel.open\<close>. \<open>uuid\<close> is the text \<^verbatim>\<open>str(uuid4())\<close> returns and \<open>gen\<close> the
  two keys \<^verbatim>\<open>SigningKey.generate()\<close> returns, each used only when the argument it
  replaces is missing. The dataclass's \<^verbatim>\<open>__post_init__\<close> puts a clone of the state
  into the empty history.
\<close>

definition Channel_open ::
  "sha256 \<Rightarrow> int \<Rightarrow> int \<Rightarrow> CommitmentParameters option \<Rightarrow> string option
     \<Rightarrow> (string \<times> bytes) list option \<Rightarrow> string \<Rightarrow> bytes \<times> bytes \<Rightarrow> tape
     \<Rightarrow> error + (Channel \<times> tape)" where
  "Channel_open sha deposit_alice deposit_bob params_arg channel_id_arg signing_keys_arg uuid gen tp =
     (if deposit_alice < 0 \<or> deposit_bob < 0 then Inl InvalidAmountError
      else
        ebind (case params_arg of Some P \<Rightarrow> Inr P | None \<Rightarrow> default_parameters sha) (\<lambda>P.
        let cid = (case channel_id_arg of
                     Some c \<Rightarrow> if c = [] then uuid else c
                   | None \<Rightarrow> uuid);
            signing_keys = (case signing_keys_arg of
                              Some ks \<Rightarrow> ks
                            | None \<Rightarrow> [(''alice'', fst gen), (''bob'', snd gen)]);
            parts = map (\<lambda>(pid, sk). (pid, \<lparr>participant_id = pid, signing_key = sk\<rparr>))
                      signing_keys;
            bals = [(''alice'', deposit_alice), (''bob'', deposit_bob)]
        in
        ebind (open_loop sha P cid bals ([], [], []) tp) (\<lambda>((cms, ops, prs), tp').
        let st = \<lparr>sequence = 0, balances = bals, commitments = cms, openings = ops,
                  proofs = prs, signatures = []\<rparr>
        in Inr (\<lparr>channel_id = cid, params = P, participants = parts, state = st,
                 history = [st]\<rparr>, tp'))))"

text \<open>
  The methods that mutate a channel return, on an exception, the error together with
  the channel as the exception leaves it: \<open>Inl (e, ch')\<close>.

  The loop of \<^verbatim>\<open>Channel._set_balances\<close> over \<^verbatim>\<open>balances.items()\<close>.
\<close>

fun set_balances_loop ::
  "sha256 \<Rightarrow> Channel \<Rightarrow> (string \<times> int) list \<Rightarrow> (string \<times> CommitmentProof) list \<Rightarrow> tape
     \<Rightarrow> (error \<times> Channel) + (Channel \<times> (string \<times> CommitmentProof) list \<times> tape)" where
  "set_balances_loop sha ch [] new_proofs tp = Inr (ch, new_proofs, tp)"
| "set_balances_loop sha ch ((pid, balance) # rest) new_proofs tp =
     (case commit (params ch) balance None tp of
        Inl e \<Rightarrow> Inl (e, ch)
      | Inr ((commitment, opening), tp1) \<Rightarrow>
          let st = state ch;
              ch1 = ch\<lparr>state := st\<lparr>commitments := dict_set (commitments st) pid commitment,
                                    openings := dict_set (openings st) pid opening\<rparr>\<rparr>;
              context = proof_context (channel_id ch) (sequence st) pid
          in (case prove_opening sha (params ch) balance opening commitment context tp1 of
                Inl e \<Rightarrow> Inl (e, ch1)
              | Inr (prf, tp2) \<Rightarrow>
                  (case verify_opening_proof sha (params ch) commitment prf context of
                     Inl e \<Rightarrow> Inl (e, ch1)
                   | Inr ok \<Rightarrow>
                       if \<not> ok then Inl (ChannelError, ch1)
                       else set_balances_loop sha ch1 rest (dict_set new_proofs pid prf) tp2)))"

definition set_balances ::
  "sha256 \<Rightarrow> Channel \<Rightarrow> (string \<times> int) list \<Rightarrow> tape \<Rightarrow> (error \<times> Channel) + (Channel \<times> tape)" where
  "set_balances sha ch bals tp =
     (let ch0 = ch\<lparr>state := (state ch)\<lparr>balances := dict_update (balances (state ch)) bals\<rparr>\<rparr>
      in case set_balances_loop sha ch0 bals [] tp of
           Inl x \<Rightarrow> Inl x
         | Inr (ch1, new_proofs, tp') \<Rightarrow>
             Inr (ch1\<lparr>state := (state ch1)\<lparr>proofs := new_proofs, signatures := []\<rparr>\<rparr>, tp'))"

definition apply_payment ::
  "sha256 \<Rightarrow> Channel \<Rightarrow> string \<Rightarrow> int \<Rightarrow> tape \<Rightarrow> (error \<times> Channel) + (Channel \<times> tape)" where
  "apply_payment sha ch payer amount tp =
     (if payer \<notin> set (dict_keys (participants ch)) then Inl (InvalidParticipantError, ch)
      else if amount \<le> 0 then Inl (InvalidAmountError, ch)
      else
       (case dict_item (balances (state ch)) payer of
          Inl e \<Rightarrow> Inl (e, ch)
        | Inr payer_balance \<Rightarrow>
           (if amount > payer_balance then Inl (InsufficientBalanceError, ch)
            else
             (case other payer of
                Inl e \<Rightarrow> Inl (e, ch)
              | Inr payee \<Rightarrow>
                 (let bals = balances (state ch);
                      bals1 = dict_set bals payer (payer_balance - amount)
                  in (case dict_item bals1 payee of
                        Inl e \<Rightarrow> Inl (e, ch)
                      | Inr payee_balance \<Rightarrow>
                         (let bals2 = dict_set bals1 payee (payee_balance + amount);
                              ch1 = ch\<lparr>state := (state ch)\<lparr>sequence := sequence (state ch) + 1\<rparr>\<rparr>
                          in (case set_balances sha ch1 bals2 tp of
                                Inl x \<Rightarrow> Inl x
                              | Inr (ch2, tp') \<Rightarrow>
                                  Inr (ch2\<lparr>history := history ch2 @ [state ch2]\<rparr>, tp')))))))))"

definition state_digest :: "sha256 \<Rightarrow> Channel \<Rightarrow> bytes" where
  "state_digest sha ch =
     compute_state_digest sha (channel_id ch) (sequence (state ch)) (commitments (state ch))"

definition sign_state ::
  "sha256 \<Rightarrow> sig_scheme \<Rightarrow> Channel \<Rightarrow> string \<Rightarrow> error + (bytes \<times> Channel)" where
  "sign_state sha sg ch pid =
     (case map_of (participants ch) pid of
        None \<Rightarrow> Inl InvalidParticipantError
      | Some participant \<Rightarrow>
          let signature = sk_sign sg (signing_key participant) (state_digest sha ch)
          in Inr (signature,
                  ch\<lparr>state := (state ch)\<lparr>signatures :=
                        dict_set (signatures (state ch)) pid signature\<rparr>\<rparr>))"

definition is_fully_signed :: "Channel \<Rightarrow> bool" where
  "is_fully_signed ch =
     list_all (\<lambda>pid. pid \<in> set (dict_keys (signatures (state ch)))) (dict_keys (participants ch))"

fun verify_signatures_loop ::
  "sig_scheme \<Rightarrow> bytes \<Rightarrow> (string \<times> bytes) list \<Rightarrow> (string \<times> ChannelParticipant) list
     \<Rightarrow> error + bool" where
  "verify_signatures_loop sg digest sigs [] = Inr True"
| "verify_signatures_loop sg digest sigs ((pid, participant) # rest) =
     (case map_of sigs pid of
        None \<Rightarrow> Inr False
      | Some signature \<Rightarrow>
          ebind (vk_verify sg (sk_verify_key sg (signing_key participant)) digest signature)
            (\<lambda>ok. if \<not> ok then Inr False else verify_signatures_loop sg digest sigs rest))"

definition verify_signatures :: "sha256 \<Rightarrow> sig_scheme \<Rightarrow> Channel \<Rightarrow> error + bool" where
  "verify_signatures sha sg ch =
     verify_signatures_loop sg (state_digest sha ch) (signatures (state ch)) (participants ch)"

text \<open>
  The values a close payload (\<^verbatim>\<open>Dict[str, object]\<close>) can hold: \<open>PyBytes\<close> is a
  bytes or bytearray object, \<open>PyOther\<close> any object that is none of the others.
\<close>

datatype pyobj =
    PyNone | PyBool bool | PyInt int | PyStr string | PyBytes bytes
  | PyDict "(string \<times> pyobj) list" | PyOther

definition closing_payload :: "Channel \<Rightarrow> (string \<times> pyobj) list" where
  "closing_payload ch =
     (let st = state ch in
      [(''channel_id'', PyStr (channel_id ch)),
       (''sequence'', PyInt (sequence st)),
       (''balances'', PyDict (map (\<lambda>(pid, b). (pid, PyInt b)) (balances st))),
       (''commitments'',
          PyDict (map (\<lambda>(pid, c). (pid, PyStr (serialize_commitment c))) (commitments st))),
       (''openings'',
          PyDict (map (\<lambda>(pid, opn). (pid, PyStr (serialize_opening opn))) (openings st))),
       (''proofs'',
          PyDict (map (\<lambda>(pid, prf).
                    (pid, PyDict (map (\<lambda>(k, v). (k, PyStr v)) (serialize_proof prf))))
                  (proofs st))),
       (''signatures'', PyDict (map (\<lambda>(pid, sig). (pid, PyStr (bytes_hex sig))) (signatures st)))])"

section \<open>protocol/ledger.py\<close>

record LedgerRecord =
  rec_channel_id :: string
  rec_sequence :: int
  rec_commitments :: "(string \<times> Commitment) list"
  verify_keys :: "(string \<times> bytes) list"
  closed :: bool

record SimulatedLedger =
  ledger_params :: CommitmentParameters
  records :: "(string \<times> LedgerRecord) list"

text \<open>\<^verbatim>\<open>SimulatedLedger.__init__\<close>\<close>

definition SimulatedLedger_init ::
  "sha256 \<Rightarrow> CommitmentParameters option \<Rightarrow> error + SimulatedLedger" where
  "SimulatedLedger_init sha params_arg =
     ebind (case params_arg of Some P \<Rightarrow> Inr P | None \<Rightarrow> default_parameters sha) (\<lambda>P.
     Inr \<lparr>ledger_params = P, records = []\<rparr>)"

definition register_channel :: "sig_scheme \<Rightarrow> SimulatedLedger \<Rightarrow> Channel \<Rightarrow> SimulatedLedger" where
  "register_channel sg L ch =
     L\<lparr>records := dict_set (records L) (channel_id ch)
          \<lparr>rec_channel_id = channel_id ch,
           rec_sequence = sequence (state ch),
           rec_commitments = commitments (state ch),
           verify_keys = map (\<lambda>(pid, participant).
                                (pid, sk_verify_key sg (signing_key participant)))
                           (participants ch),
           closed = False\<rparr>\<rparr>"

definition require_record :: "SimulatedLedger \<Rightarrow> string \<Rightarrow> error + LedgerRecord" where
  "require_record L cid =
     (case map_of (records L) cid of None \<Rightarrow> Inl UnknownChannelError | Some r \<Rightarrow> Inr r)"

definition update_state :: "SimulatedLedger \<Rightarrow> Channel \<Rightarrow> error + SimulatedLedger" where
  "update_state L ch =
     ebind (require_record L (channel_id ch)) (\<lambda>r.
     if sequence (state ch) < rec_sequence r then Inl InvalidSettlementError
     else Inr (L\<lparr>records := dict_set (records L) (channel_id ch)
                    (r\<lparr>rec_sequence := sequence (state ch),
                       rec_commitments := commitments (state ch)\<rparr>)\<rparr>))"

text \<open>\<^verbatim>\<open>d.get(k)\<close>: None when the key is missing.\<close>

definition payload_get :: "(string \<times> pyobj) list \<Rightarrow> string \<Rightarrow> pyobj" where
  "payload_get d k = (case map_of d k of None \<Rightarrow> PyNone | Some v \<Rightarrow> v)"

text \<open>\<^verbatim>\<open>isinstance(v, int)\<close> with the value: a bool is an int in Python.\<close>

fun py_int_of :: "pyobj \<Rightarrow> int option" where
  "py_int_of (PyInt i) = Some i"
| "py_int_of (PyBool b) = Some (if b then 1 else 0)"
| "py_int_of v = None"

text \<open>\<^verbatim>\<open>isinstance(v, dict)\<close> with the items.\<close>

fun py_dict_of :: "pyobj \<Rightarrow> (string \<times> pyobj) list option" where
  "py_dict_of (PyDict d) = Some d"
| "py_dict_of v = None"

text \<open>
  \<^verbatim>\<open>int(v, 16)\<close> on an object: a str or bytes is parsed, anything else is a TypeError.
  \<^verbatim>\<open>bytes.fromhex(v)\<close>: TypeError unless it is a str.
\<close>

fun py_int16 :: "pyobj \<Rightarrow> error + int" where
  "py_int16 (PyStr s) = int_of_hex s"
| "py_int16 (PyBytes s) = int_of_hex s"
| "py_int16 v = Inl TypeError"

fun py_fromhex :: "pyobj \<Rightarrow> error + bytes" where
  "py_fromhex (PyStr s) = bytes_fromhex s"
| "py_fromhex v = Inl TypeError"

definition deserialize_proof :: "(string \<times> pyobj) list \<Rightarrow> error + CommitmentProof" where
  "deserialize_proof data =
     ebind (dict_item data ''t'') (\<lambda>a. ebind (py_int16 a) (\<lambda>tv.
     ebind (dict_item data ''response_m'') (\<lambda>b. ebind (py_int16 b) (\<lambda>rm.
     ebind (dict_item data ''response_r'') (\<lambda>c. ebind (py_int16 c) (\<lambda>rr.
     Inr \<lparr>t = tv, response_m = rm, response_r = rr\<rparr>))))))"

text \<open>The first loop of \<^verbatim>\<open>cooperative_close\<close>, over \<^verbatim>\<open>record.commitments.items()\<close>.\<close>

fun check_commitments ::
  "(string \<times> Commitment) list \<Rightarrow> (string \<times> pyobj) list \<Rightarrow> error + unit" where
  "check_commitments [] commitments_hex = Inr ()"
| "check_commitments ((pid, commitment) # rest) commitments_hex =
     (if payload_get commitments_hex pid \<noteq> PyStr (serialize_commitment commitment)
      then Inl InvalidSettlementError
      else check_commitments rest commitments_hex)"

text \<open>
  The second loop, over \<^verbatim>\<open>record.verify_keys.items()\<close>: first its body for one
  participant, then the loop.
\<close>

definition check_participant ::
  "sha256 \<Rightarrow> sig_scheme \<Rightarrow> CommitmentParameters \<Rightarrow> string \<Rightarrow> LedgerRecord \<Rightarrow> bytes
     \<Rightarrow> (string \<times> pyobj) list \<Rightarrow> (string \<times> pyobj) list \<Rightarrow> (string \<times> pyobj) list
     \<Rightarrow> (string \<times> pyobj) list \<Rightarrow> string \<Rightarrow> bytes \<Rightarrow> error + unit" where
  "check_participant sha sg P cid r digest signatures_hex openings_hex bals proofs_hex
     pid verify_key =
     (let signature_hex = payload_get signatures_hex pid in
      if signature_hex = PyNone then Inl InvalidSettlementError
      else
        ebind (py_fromhex signature_hex) (\<lambda>signature.
        ebind (vk_verify sg verify_key digest signature) (\<lambda>sig_ok.
        if \<not> sig_ok then Inl InvalidSettlementError
        else
          (let opening_hex = payload_get openings_hex pid;
               balance = payload_get bals pid
           in
           (case py_int_of balance of
              None \<Rightarrow> Inl InvalidSettlementError
            | Some balance_int \<Rightarrow>
               (if opening_hex = PyNone then Inl InvalidSettlementError
                else
                  ebind (ebind (py_int16 opening_hex) (\<lambda>v. Inr (CommitmentOpening v)))
                    (\<lambda>opening.
                  ebind (dict_item (rec_commitments r) pid) (\<lambda>commitment.
                  ebind (verify P commitment balance_int opening) (\<lambda>open_ok.
                  if \<not> open_ok then Inl InvalidSettlementError
                  else
                    (case py_dict_of (payload_get proofs_hex pid) of
                       None \<Rightarrow> Inl InvalidSettlementError
                     | Some proof_blob \<Rightarrow>
                         ebind (deserialize_proof proof_blob) (\<lambda>prf.
                         ebind (verify_opening_proof sha P commitment prf
                                  (proof_context cid (rec_sequence r) pid)) (\<lambda>proof_ok.
                         if \<not> proof_ok then Inl InvalidSettlementError
                         else Inr ()))))))))))))"

fun check_participants ::
  "sha256 \<Rightarrow> sig_scheme \<Rightarrow> CommitmentParameters \<Rightarrow> string \<Rightarrow> LedgerRecord \<Rightarrow> bytes
     \<Rightarrow> (string \<times> pyobj) list \<Rightarrow> (string \<times> pyobj) list \<Rightarrow> (string \<times> pyobj) list
     \<Rightarrow> (string \<times> pyobj) list \<Rightarrow> (string \<times> bytes) list \<Rightarrow> error + unit" where
  "check_participants sha sg P cid r digest signatures_hex openings_hex bals proofs_hex [] = Inr ()"
| "check_participants sha sg P cid r digest signatures_hex openings_hex bals proofs_hex
     ((pid, verify_key) # rest) =
     ebind (check_participant sha sg P cid r digest signatures_hex openings_hex bals proofs_hex
              pid verify_key)
       (\<lambda>_. check_participants sha sg P cid r digest signatures_hex openings_hex bals proofs_hex
                rest)"

text \<open>
  \<^verbatim>\<open>SimulatedLedger.cooperative_close\<close>: the outcome and the ledger after the call.
  Every exception is raised before the one assignment \<^verbatim>\<open>record.closed = True\<close>, so
  a failing call leaves the ledger as it was.
\<close>

definition cooperative_close_checks ::
  "sha256 \<Rightarrow> sig_scheme \<Rightarrow> SimulatedLedger \<Rightarrow> (string \<times> pyobj) list
     \<Rightarrow> error + (string \<times> LedgerRecord \<times> (string \<times> pyobj) list)" where
  "cooperative_close_checks sha sg L payload =
     (case payload_get payload ''channel_id'' of
        PyStr cid \<Rightarrow>
          ebind (require_record L cid) (\<lambda>r.
          if closed r then Inl InvalidSettlementError
          else if py_int_of (payload_get payload ''sequence'') \<noteq> Some (rec_sequence r)
          then Inl InvalidSettlementError
          else
            (case (py_dict_of (payload_get payload ''commitments''),
                   py_dict_of (payload_get payload ''openings''),
                   py_dict_of (payload_get payload ''balances'')) of
               (Some commitments_hex, Some openings_hex, Some bals) \<Rightarrow>
                 (case py_dict_of (payload_get payload ''signatures'') of
                    None \<Rightarrow> Inl InvalidSettlementError
                  | Some signatures_hex \<Rightarrow>
                      (case py_dict_of (payload_get payload ''proofs'') of
                         None \<Rightarrow> Inl InvalidSettlementError
                       | Some proofs_hex \<Rightarrow>
                           ebind (check_commitments (rec_commitments r) commitments_hex) (\<lambda>_.
                           let digest = compute_state_digest sha cid (rec_sequence r)
                                          (rec_commitments r)
                           in
                           ebind (check_participants sha sg (ledger_params L) cid r digest
                                    signatures_hex openings_hex bals proofs_hex (verify_keys r))
                             (\<lambda>_. Inr (cid, r, bals)))))
             | _ \<Rightarrow> Inl InvalidSettlementError))
      | _ \<Rightarrow> Inl InvalidSettlementError)"

definition cooperative_close ::
  "sha256 \<Rightarrow> sig_scheme \<Rightarrow> SimulatedLedger \<Rightarrow> (string \<times> pyobj) list
     \<Rightarrow> (error + (string \<times> pyobj) list) \<times> SimulatedLedger" where
  "cooperative_close sha sg L payload =
     (case cooperative_close_checks sha sg L payload of
        Inl e \<Rightarrow> (Inl e, L)
      | Inr (cid, r, bals) \<Rightarrow>
          (Inr [(''channel_id'', PyStr cid),
                (''sequence'', PyInt (rec_sequence r)),
                (''settled_balances'', PyDict bals),
                (''verified'', PyBool True)],
           L\<lparr>records := dict_set (records L) cid (r\<lparr>closed := True\<rparr>)\<rparr>))"

section \<open>Notions used to state the properties\<close>

text \<open>
  The invariant of the group parameters that the commitment scheme relies on: a modulus
  above 1, a positive order \<open>q\<close>, and both generators in the subgroup of the elements
  whose \<open>q\<close>-th power is 1.
\<close>

definition subgroup_params :: "CommitmentParameters \<Rightarrow> bool" where
  "subgroup_params P \<longleftrightarrow>
     1 < p P \<and> 0 < q P \<and> g P ^ nat (q P) mod p P = 1 \<and> h P ^ nat (q P) mod p P = 1"

text \<open>The value of a text that consists of hexadecimal digits only.\<close>

fun hex_digits_val :: "nat \<Rightarrow> string \<Rightarrow> nat option" where
  "hex_digits_val acc [] = Some acc"
| "hex_digits_val acc (c # cs) =
     (case hex_val c of None \<Rightarrow> None | Some d \<Rightarrow> hex_digits_val (acc * 16 + d) cs)"

text \<open>
  An outcome that, when it is an error, is one that Python's arithmetic raises
  (\<^verbatim>\<open>%\<close>, \<^verbatim>\<open>pow\<close>, \<^verbatim>\<open>secrets.randbelow\<close>, \<^verbatim>\<open>int.to_bytes\<close>), or the random
  tape running out.
\<close>

definition only_arithmetic :: "error + 'a \<Rightarrow> bool" where
  "only_arithmetic r \<longleftrightarrow>
     (\<forall>e. r = Inl e \<longrightarrow> e \<in> {ValueError, ZeroDivisionError, OverflowError, RngExhausted})"

text \<open>Exponentiation in that subgroup, with the exponent any integer.\<close>

definition gexp :: "int \<Rightarrow> int \<Rightarrow> int \<Rightarrow> int \<Rightarrow> int" where
  "gexp m n x a = x ^ nat (a mod n) mod m"

text \<open>
  The channels that a channel \<open>ch0\<close> can become: by successful payments, with any random
  draws, and by signatures in between.
\<close>

inductive reaches :: "sha256 \<Rightarrow> sig_scheme \<Rightarrow> Channel \<Rightarrow> Channel \<Rightarrow> bool"
  for sha :: sha256 and sg :: sig_scheme and ch0 :: Channel where
  reaches_start: "reaches sha sg ch0 ch0"
| reaches_payment:
    "reaches sha sg ch0 ch \<Longrightarrow> apply_payment sha ch payer amount tp = Inr (ch', tp')
       \<Longrightarrow> reaches sha sg ch0 ch'"
| reaches_signature:
    "reaches sha sg ch0 ch \<Longrightarrow> sign_state sha sg ch pid = Inr (s, ch')
       \<Longrightarrow> reaches sha sg ch0 ch'"

text \<open>
  The invariant of a channel state: the two balances, each with a commitment that opens
  to it and a proof that verifies in the context of the state's sequence number.
\<close>

definition consistent_state ::
  "sha256 \<Rightarrow> CommitmentParameters \<Rightarrow> string \<Rightarrow> ChannelState \<Rightarrow> bool" where
  "consistent_state sha P cid st \<longleftrightarrow>
     (\<exists>a b ca cb oa ob pa pb.
        balances st = [(''alice'', a), (''bob'', b)] \<and>
        commitments st = [(''alice'', ca), (''bob'', cb)] \<and>
        openings st = [(''alice'', oa), (''bob'', ob)] \<and>
        proofs st = [(''alice'', pa), (''bob'', pb)] \<and>
        verify P ca a oa = Inr True \<and> verify P cb b ob = Inr True \<and>
        verify_opening_proof sha P ca pa (proof_context cid (sequence st) ''alice'') = Inr True \<and>
        verify_opening_proof sha P cb pb (proof_context cid (sequence st) ''bob'') = Inr True)"

text \<open>The number of draws on a tape that a rejection loop accepts.\<close>

definition usable :: "tape \<Rightarrow> nat" where
  "usable tp = length (filter (\<lambda>k. k \<noteq> 0) tp)"

text \<open>
  The settlement run of the test suite and of the HTTP layer: open with deposits
  (200, 50), register, pay 25 from alice, update the validator, sign as alice and as
  bob, close, and close again. The result is the outcome of the two closes.
\<close>

definition settlement_run ::
  "sha256 \<Rightarrow> sig_scheme \<Rightarrow> CommitmentParameters \<Rightarrow> string option \<Rightarrow> string \<Rightarrow> bytes \<times> bytes \<Rightarrow> tape
     \<Rightarrow> error + ((error + (string \<times> pyobj) list) \<times> (error + (string \<times> pyobj) list))" where
  "settlement_run sha sg P channel_id_arg uuid gen tp =
     ebind (Channel_open sha 200 50 (Some P) channel_id_arg None uuid gen tp) (\<lambda>(ch0, tp1).
     ebind (SimulatedLedger_init sha (Some P)) (\<lambda>L0.
     let L1 = register_channel sg L0 ch0 in
     (case apply_payment sha ch0 ''alice'' 25 tp1 of
        Inl (e, ch') \<Rightarrow> Inl e
      | Inr (ch1, tp2) \<Rightarrow>
          ebind (update_state L1 ch1) (\<lambda>L2.
          ebind (sign_state sha sg ch1 ''alice'') (\<lambda>(sig_a, ch2).
          ebind (sign_state sha sg ch2 ''bob'') (\<lambda>(sig_b, ch3).
          let payload = closing_payload ch3;
              (first, L3) = cooperative_close sha sg L2 payload;
              (second, L4) = cooperative_close sha sg L3 payload
          in Inr (first, second)))))))"

text \<open>The integer that \<^verbatim>\<open>int(_P_HEX, 16)\<close> is.\<close>

definition P_VALUE :: int where
  "P_VALUE = 1552518092300708935130918131258481755631334049434514313202351194902966239949102107258669453876591642442910007680288864229150803718918046342632727613031282983744380820890196288509170691316593175367469551763119843371637221007210577919"

subsection \<open>A small instance\<close>

text \<open>
  A group small enough to compute in: \<open>p = 23 = 2 \<cdot> 11 + 1\<close>, with 2 and 3 of order 11; a
  hash that always answers the same digest; a signature scheme whose signature is the
  key followed by the message.
\<close>

definition demo_params :: CommitmentParameters where
  "demo_params = \<lparr>p = 23, q = 11, g = 2, h = 3\<rparr>"

definition demo_sha :: sha256 where
  "demo_sha bs = ''a''"

definition demo_sig :: sig_scheme where
  "demo_sig = \<lparr>sk_verify_key = (\<lambda>sk. sk),
               sk_sign = (\<lambda>sk m. sk @ m),
               vk_verify = (\<lambda>vk m s. Inr (s = vk @ m))\<rparr>"

text \<open>A validator whose record of channel \<open>c1\<close> has advanced to sequence 1.\<close>

definition stale_ledger :: SimulatedLedger where
  "stale_ledger =
     \<lparr>ledger_params = demo_params,
      records = [(''c1'', \<lparr>rec_channel_id = ''c1'', rec_sequence = 1, rec_commitments = [],
                           verify_keys = [], closed = False\<rparr>)]\<rparr>"

definition demo_tape :: tape where
  "demo_tape = [1, 2, 3, 4, 5, 6, 1, 2, 3, 4, 5, 6]"

section \<open>Properties\<close>

subsection \<open>Arithmetic of the subgroup\<close>

lemma ebind_Inr [simp]: "ebind (Inr x) f = f x" by (simp add: ebind_def)
lemma ebind_Inl [simp]: "ebind (Inl e) f = Inl e" by (simp add: ebind_def)

lemma one_power_mod: "((1::int) mod m) ^ c mod m = 1 mod m"
  by (simp only: power_mod power_one)

lemma power_mod_order:
  fixes x m :: int
  assumes "x ^ n mod m = 1 mod m"
  shows "x ^ k mod m = x ^ (k mod n) mod m"
proof -
  have "x ^ (n * (k div n) + k mod n) = (x ^ n) ^ (k div n) * x ^ (k mod n)"
    by (simp only: power_add power_mult)
  then have "x ^ k = (x ^ n) ^ (k div n) * x ^ (k mod n)"
    by (simp only: mult_div_mod_eq)
  then have "x ^ k mod m = (((x ^ n) ^ (k div n) mod m) * x ^ (k mod n)) mod m"
    by (simp only: mod_mult_left_eq)
  also have "(x ^ n) ^ (k div n) mod m = (x ^ n mod m) ^ (k div n) mod m"
    by (simp only: power_mod)
  also have "\<dots> = 1 mod m"
    by (simp only: assms one_power_mod)
  finally show ?thesis by (simp only: mod_mult_left_eq mult_1)
qed

lemma invmod_SomeD:
  assumes "invmod a n = Some i"
  shows "0 \<le> i \<and> i < n \<and> (a * i) mod n = 1 mod n"
proof -
  from assms have "i \<in> set [0..n - 1] \<and> (a * i) mod n = 1 mod n"
    unfolding invmod_def by (auto simp: find_Some_iff)
  then show ?thesis by auto
qed

lemma invmod_exists:
  assumes "0 < n" "(a * y) mod n = 1 mod n"
  shows "\<exists>i. invmod a n = Some i"
proof -
  have "y mod n \<in> set [0..n - 1]" using assms(1) by simp
  moreover have "(a * (y mod n)) mod n = 1 mod n"
    using assms(2) by (simp add: mod_mult_right_eq)
  ultimately have "invmod a n \<noteq> None"
    unfolding invmod_def by (auto simp: find_None_iff)
  then show ?thesis by auto
qed

lemma py_pow_order:
  assumes m: "1 < m" and n: "0 < n" and ord: "x ^ nat n mod m = 1"
  shows "py_pow x e m = Inr (x ^ nat (e mod n) mod m)"
proof (cases "0 \<le> e")
  case True
  have o: "x ^ nat n mod m = 1 mod m" using ord m by simp
  have "nat e mod nat n = nat (e mod n)"
    using True n by (simp add: nat_mod_distrib)
  with power_mod_order [OF o, of "nat e"] True m show ?thesis
    by (simp add: py_pow_def)
next
  case False
  define k where "k = nat (- e)"
  have o: "x ^ nat n mod m = 1 mod m" using ord m by simp
  have "nat n = Suc (nat n - 1)" using n by simp
  then have "x ^ nat n = x * x ^ (nat n - 1)" by (metis power_Suc)
  with o have "(x * x ^ (nat n - 1)) mod m = 1 mod m" by simp
  from invmod_exists [OF _ this] m obtain i where i: "invmod x m = Some i" by auto
  from invmod_SomeD [OF i] have xi: "(x * i) mod m = 1 mod m" by simp
  have r: "py_pow x e m = Inr (i ^ k mod m)"
    using False m i by (simp add: py_pow_def k_def)
  have xik: "(x ^ k * i ^ k) mod m = 1 mod m"
  proof -
    have "(x ^ k * i ^ k) mod m = ((x * i) mod m) ^ k mod m"
      by (simp add: power_mult_distrib power_mod)
    also have "\<dots> = 1 mod m" by (simp add: xi power_mod)
    finally show ?thesis .
  qed
  define j where "j = nat (e mod n)"
  have ij: "int j = e mod n" using n by (simp add: j_def)
  have ik: "int k = - e" using False by (simp add: k_def)
  have "n * (e div n) + e mod n = e" by simp
  then have "e mod n - e = n * (- (e div n))" by (simp add: algebra_simps)
  with ij ik have "int (j + k) = n * (- (e div n))" by simp
  then have "int (j + k) mod n = 0" by simp
  moreover have "int ((j + k) mod nat n) = int (j + k) mod int (nat n)"
    by (rule zmod_int)
  ultimately have "(j + k) mod nat n = 0" using n by simp
  with power_mod_order [OF o, of "j + k"] have xjk: "(x ^ j * x ^ k) mod m = 1 mod m"
    by (simp add: power_add)
  have "i ^ k mod m = ((x ^ j * x ^ k) mod m * (i ^ k)) mod m"
    by (simp add: xjk mod_mult_left_eq)
  also have "\<dots> = (x ^ j * ((x ^ k * i ^ k) mod m)) mod m"
    by (simp add: mod_mult_left_eq mod_mult_right_eq mult.assoc)
  also have "\<dots> = x ^ j mod m" by (simp add: xik mod_mult_right_eq)
  finally show ?thesis using r by (simp add: j_def)
qed


lemma gexp_mod [simp]: "gexp m n x (a mod n) = gexp m n x a"
  by (simp add: gexp_def)

lemma gexp_range: "1 < m \<Longrightarrow> 0 \<le> gexp m n x a \<and> gexp m n x a < m"
  by (simp add: gexp_def)

lemma gexp_mod_m [simp]: "gexp m n x a mod m = gexp m n x a"
  by (simp add: gexp_def)

lemma gexp_add:
  assumes n: "0 < n" and ord: "x ^ nat n mod m = 1 mod m"
  shows "gexp m n x (a + b) = (gexp m n x a * gexp m n x b) mod m"
proof -
  have "(nat (a mod n) + nat (b mod n)) mod nat n = nat ((a + b) mod n)"
  proof -
    have "int ((nat (a mod n) + nat (b mod n)) mod nat n) = (a mod n + b mod n) mod n"
      using n by (simp add: zmod_int)
    also have "\<dots> = (a + b) mod n" by (simp add: mod_add_eq)
    finally show ?thesis using n by (metis nat_int)
  qed
  with power_mod_order [OF ord, of "nat (a mod n) + nat (b mod n)"]
  have "x ^ (nat (a mod n) + nat (b mod n)) mod m = gexp m n x (a + b)"
    by (simp add: gexp_def)
  then show ?thesis
    by (simp add: gexp_def power_add mod_mult_eq)
qed

lemma gexp_mult:
  assumes n: "0 < n" and ord: "x ^ nat n mod m = 1 mod m" and c: "0 \<le> c"
  shows "gexp m n x (a * c) = gexp m n x a ^ nat c mod m"
proof -
  have "(nat (a mod n) * nat c) mod nat n = nat ((a * c) mod n)"
  proof -
    have "int ((nat (a mod n) * nat c) mod nat n) = ((a mod n) * c) mod n"
      using n c by (simp add: zmod_int)
    also have "\<dots> = (a * c) mod n" by (simp add: mod_mult_left_eq)
    finally show ?thesis using n by (metis nat_int)
  qed
  with power_mod_order [OF ord, of "nat (a mod n) * nat c"]
  have "x ^ (nat (a mod n) * nat c) mod m = gexp m n x (a * c)"
    by (simp add: gexp_def)
  then show ?thesis
    by (simp add: gexp_def power_mult power_mod)
qed

lemma pow'_g: "subgroup_params P \<Longrightarrow> pow' (g P) e (p P) = Inr (gexp (p P) (q P) (g P) e)"
  unfolding pow'_def gexp_def subgroup_params_def by (intro py_pow_order) auto

lemma pow'_h: "subgroup_params P \<Longrightarrow> pow' (h P) e (p P) = Inr (gexp (p P) (q P) (h P) e)"
  unfolding pow'_def gexp_def subgroup_params_def by (intro py_pow_order) auto

lemma py_mod_ok [simp]: "b \<noteq> 0 \<Longrightarrow> py_mod a b = Inr (a mod b)"
  by (simp add: py_mod_def)

lemma commit_Some:
  assumes "subgroup_params P"
  shows "commit P m (Some r) tp =
    Inr ((Commitment ((gexp (p P) (q P) (g P) m * gexp (p P) (q P) (h P) r) mod p P),
          CommitmentOpening r), tp)"
proof -
  have "p P \<noteq> 0" "q P \<noteq> 0" using assms by (auto simp: subgroup_params_def)
  then show ?thesis
    by (simp add: commit_def pow'_g [OF assms] pow'_h [OF assms])
qed

lemma verify_eq:
  assumes "subgroup_params P"
  shows "verify P c m opn =
    Inr (commitment_value c mod p P =
         (gexp (p P) (q P) (g P) m * gexp (p P) (q P) (h P) (randomness opn)) mod p P)"
proof -
  have "p P \<noteq> 0" "q P \<noteq> 0" using assms by (auto simp: subgroup_params_def)
  then show ?thesis
    by (simp add: verify_def pow'_g [OF assms] pow'_h [OF assms])
qed


lemma bit_length_nat_bound: "n < 2 ^ bit_length_nat n"
proof (induction n rule: bit_length_nat.induct)
  case (1 n)
  show ?case
  proof (cases "n = 0")
    case True
    then show ?thesis by (simp add: bit_length_nat.simps)
  next
    case False
    with 1 have "n div 2 < 2 ^ bit_length_nat (n div 2)" by simp
    then have "n < 2 * 2 ^ bit_length_nat (n div 2)" by linarith
    with False show ?thesis by (subst bit_length_nat.simps) simp
  qed
qed

lemma byte_length_bound:
  assumes "0 < p P"
  shows "p P \<le> 256 ^ commitment_byte_length P"
proof -
  define b where "b = bit_length_nat (nat (p P))"
  have "nat (p P) < 2 ^ b" unfolding b_def by (rule bit_length_nat_bound)
  also have "(2::nat) ^ b \<le> 2 ^ (8 * ((b + 7) div 8))"
    by (rule power_increasing) auto
  also have "(2::nat) ^ (8 * ((b + 7) div 8)) = 256 ^ ((b + 7) div 8)"
    by (simp add: power_mult)
  finally have "nat (p P) < 256 ^ ((b + 7) div 8)" .
  then have "p P < int (256 ^ ((b + 7) div 8))" using assms by linarith
  then show ?thesis using assms
    by (simp add: commitment_byte_length_def bit_length_def b_def)
qed

lemma int_to_bytes_residue:
  assumes "0 < p P"
  shows "\<exists>bs. int_to_bytes (v mod p P) (commitment_byte_length P) = Inr bs"
proof -
  have "0 \<le> v mod p P" "v mod p P < p P" using assms by simp_all
  with byte_length_bound [OF assms] show ?thesis
    by (simp add: int_to_bytes_def to_bytes_big_def)
qed

lemma compute_challenge_total:
  assumes "subgroup_params P"
  shows "\<exists>ch. compute_challenge sha P c tv ctx = Inr ch \<and> 0 \<le> ch"
proof -
  have pq: "0 < p P" "p P \<noteq> 0" "q P \<noteq> 0" "0 < q P"
    using assms by (auto simp: subgroup_params_def)
  obtain cb where cb: "int_to_bytes (commitment_value c mod p P) (commitment_byte_length P) = Inr cb"
    using int_to_bytes_residue [OF pq(1)] by blast
  obtain tb where tb: "int_to_bytes (tv mod p P) (commitment_byte_length P) = Inr tb"
    using int_to_bytes_residue [OF pq(1)] by blast
  show ?thesis using pq cb tb
    by (simp add: compute_challenge_def Let_def)
qed

lemma random_scalar_nonneg: "random_scalar P tp = Inr (k, tp') \<Longrightarrow> 0 \<le> k"
  by (induction tp) (auto split: if_splits)

lemma add_commitments_pair:
  assumes "p P \<noteq> 0"
  shows "add_commitments P [Commitment a, Commitment b] = Inr (Commitment ((a * b) mod p P))"
  using assms by (simp add: add_commitments_def mod_mult_left_eq)

lemma add_openings_pair:
  assumes "q P \<noteq> 0"
  shows "add_openings P [CommitmentOpening a, CommitmentOpening b]
           = Inr (CommitmentOpening ((a + b) mod q P))"
  using assms by (simp add: add_openings_def mod_add_left_eq)

lemma homomorphism_core:
  assumes "subgroup_params P"
  shows "verify P (Commitment
            (((gexp (p P) (q P) (g P) m1 * gexp (p P) (q P) (h P) r1) mod p P
              * ((gexp (p P) (q P) (g P) m2 * gexp (p P) (q P) (h P) r2) mod p P)) mod p P))
          ((m1 + m2) mod q P) (CommitmentOpening ((r1 + r2) mod q P)) = Inr True"
proof -
  have n: "0 < q P" and og: "g P ^ nat (q P) mod p P = 1 mod p P"
    and oh: "h P ^ nat (q P) mod p P = 1 mod p P"
    using assms by (auto simp: subgroup_params_def)
  have "(gexp (p P) (q P) (g P) (m1 + m2) * gexp (p P) (q P) (h P) (r1 + r2)) mod p P
      = (((gexp (p P) (q P) (g P) m1 * gexp (p P) (q P) (g P) m2) mod p P)
         * ((gexp (p P) (q P) (h P) r1 * gexp (p P) (q P) (h P) r2) mod p P)) mod p P"
    by (simp only: gexp_add [OF n og] gexp_add [OF n oh])
  also have "\<dots> = ((gexp (p P) (q P) (g P) m1 * gexp (p P) (q P) (h P) r1)
         * (gexp (p P) (q P) (g P) m2 * gexp (p P) (q P) (h P) r2)) mod p P"
    by (simp add: mod_mult_eq mult_ac)
  finally show ?thesis
    by (simp add: verify_eq [OF assms] mod_mult_eq)
qed

text \<open>
  C3 (additive homomorphism). For all integer messages \<open>m1\<close>, \<open>m2\<close> and all integer
  openings \<open>r1\<close>, \<open>r2\<close>: the two commitments exist, \<^verbatim>\<open>add_commitments\<close> and
  \<^verbatim>\<open>add_openings\<close> of them return, and \<^verbatim>\<open>verify\<close> accepts the sum commitment for
  the message \<open>(m1 + m2) mod q\<close> under the summed opening.
\<close>

theorem add_commitments_homomorphic:
  assumes "subgroup_params P"
  shows "\<exists>c1 o1 c2 o2 c12 o12.
           commit P m1 (Some r1) tp = Inr ((c1, o1), tp) \<and>
           commit P m2 (Some r2) tp = Inr ((c2, o2), tp) \<and>
           add_commitments P [c1, c2] = Inr c12 \<and>
           add_openings P [o1, o2] = Inr o12 \<and>
           verify P c12 ((m1 + m2) mod q P) o12 = Inr True"
proof -
  have pq: "p P \<noteq> 0" "q P \<noteq> 0" using assms by (auto simp: subgroup_params_def)
  note c1 = commit_Some [OF assms, of m1 r1 tp] and c2 = commit_Some [OF assms, of m2 r2 tp]
  note ac = add_commitments_pair [OF pq(1)] and ao = add_openings_pair [OF pq(2), of r1 r2]
  note v = homomorphism_core [OF assms, of m1 r1 m2 r2]
  show ?thesis
    by (intro exI conjI) (rule c1, rule c2, rule ac, rule ao, rule v)
qed


theorem add_commitments_homomorphic_witness:
  "subgroup_params demo_params \<and>
   (\<exists>c1 o1 c2 o2 c12 o12.
      commit demo_params 40 (Some 5) [] = Inr ((c1, o1), []) \<and>
      commit demo_params 60 (Some 7) [] = Inr ((c2, o2), []) \<and>
      add_commitments demo_params [c1, c2] = Inr c12 \<and>
      add_openings demo_params [o1, o2] = Inr o12 \<and>
      verify demo_params c12 ((40 + 60) mod q demo_params) o12 = Inr True)"
proof -
  have d: "subgroup_params demo_params"
    by (simp add: subgroup_params_def demo_params_def)
  show ?thesis
    using d add_commitments_homomorphic [OF d, of 40 5 "[]" 60 7] by blast
qed

lemma ebind_eq_Inr: "ebind m f = Inr y \<longleftrightarrow> (\<exists>x. m = Inr x \<and> f x = Inr y)"
  by (cases m) (simp_all add: ebind_def)

lemma schnorr_algebra:
  fixes a b gm hr m :: int
  shows "(((a * (gm ^ c mod m)) mod m) * ((b * (hr ^ c mod m)) mod m)) mod m
       = (((a * b) mod m) * (((gm * hr) mod m) ^ c mod m)) mod m"
proof -
  have "(((a * (gm ^ c mod m)) mod m) * ((b * (hr ^ c mod m)) mod m)) mod m
      = ((a * gm ^ c) * (b * hr ^ c)) mod m"
    by (simp add: mod_mult_eq mod_mult_right_eq mod_mult_left_eq)
  also have "\<dots> = ((a * b) * (gm * hr) ^ c) mod m"
    by (simp add: power_mult_distrib mult_ac)
  also have "\<dots> = (((a * b) mod m) * (((gm * hr) mod m) ^ c mod m)) mod m"
    by (simp add: mod_mult_eq power_mod)
  finally show ?thesis .
qed

lemma verify_opening_proof_complete:
  assumes sp: "subgroup_params P"
    and pr: "prove_opening sha P m (CommitmentOpening r)
               (Commitment ((gexp (p P) (q P) (g P) m * gexp (p P) (q P) (h P) r) mod p P))
               ctx tp = Inr (prf, tp')"
  shows "verify_opening_proof sha P
           (Commitment ((gexp (p P) (q P) (g P) m * gexp (p P) (q P) (h P) r) mod p P))
           prf ctx = Inr True"
proof -
  let ?G = "gexp (p P) (q P) (g P)" and ?H = "gexp (p P) (q P) (h P)"
  let ?C = "Commitment ((?G m * ?H r) mod p P)"
  have pq: "p P \<noteq> 0" "q P \<noteq> 0"
    and n: "0 < q P" and og: "g P ^ nat (q P) mod p P = 1 mod p P"
    and oh: "h P ^ nat (q P) mod p P = 1 mod p P"
    using sp by (auto simp: subgroup_params_def)
  from pr obtain w_m w_r ch where
    ch: "compute_challenge sha P ?C ((?G w_m * ?H w_r) mod p P) ctx = Inr ch"
    and pf: "prf = \<lparr>t = (?G w_m * ?H w_r) mod p P,
                     response_m = (w_m + ch * (m mod q P)) mod q P,
                     response_r = (w_r + ch * r) mod q P\<rparr>"
    using pq by (auto simp: prove_opening_def ebind_eq_Inr pow'_g [OF sp] pow'_h [OF sp])
  from compute_challenge_total [OF sp, of sha ?C "(?G w_m * ?H w_r) mod p P" ctx] ch
  have ch0: "0 \<le> ch" by simp
  have gm: "?G (w_m + ch * (m mod q P)) = (?G w_m * (?G m ^ nat ch mod p P)) mod p P"
  proof -
    have "?G ((m mod q P) * ch) = ?G m ^ nat ch mod p P"
      using gexp_mult [OF n og ch0, of "m mod q P"] by simp
    then show ?thesis
      by (simp add: gexp_add [OF n og] mult.commute)
  qed
  have hr: "?H (w_r + ch * r) = (?H w_r * (?H r ^ nat ch mod p P)) mod p P"
  proof -
    have "?H (r * ch) = ?H r ^ nat ch mod p P"
      using gexp_mult [OF n oh ch0, of r] by simp
    then show ?thesis
      by (simp add: gexp_add [OF n oh] mult.commute)
  qed
  have pw: "pow' ((?G m * ?H r) mod p P) ch (p P) = Inr (((?G m * ?H r) mod p P) ^ nat ch mod p P)"
    using pq ch0 by (simp add: pow'_def py_pow_def)
  have eq: "(?G (w_m + ch * (m mod q P)) * ?H (w_r + ch * r)) mod p P
      = (((?G w_m * ?H w_r) mod p P) * (((?G m * ?H r) mod p P) ^ nat ch mod p P)) mod p P"
    by (simp only: gm hr schnorr_algebra)
  show ?thesis
    using pq ch
    by (simp add: verify_opening_proof_def pf pow'_g [OF sp] pow'_h [OF sp] pw eq)
qed



subsection \<open>The channel state machine\<close>

lemma set_balances_loop_frame:
  "set_balances_loop sha ch bals prs tp = Inr (ch', prs', tp') \<Longrightarrow>
     channel_id ch' = channel_id ch \<and> params ch' = params ch \<and>
     participants ch' = participants ch \<and> history ch' = history ch \<and>
     balances (state ch') = balances (state ch) \<and>
     sequence (state ch') = sequence (state ch) \<and>
     signatures (state ch') = signatures (state ch)"
proof (induction bals arbitrary: ch prs tp)
  case Nil
  then show ?case by simp
next
  case (Cons x bals)
  obtain pid balance where x: "x = (pid, balance)" by (cases x)
  from Cons.prems show ?case
    unfolding x
    by (auto simp: Let_def split: sum.splits prod.splits if_splits dest!: Cons.IH)
qed

lemma set_balances_frame:
  assumes "set_balances sha ch bals tp = Inr (ch', tp')"
  shows "channel_id ch' = channel_id ch \<and> params ch' = params ch \<and>
     participants ch' = participants ch \<and> history ch' = history ch \<and>
     balances (state ch') = dict_update (balances (state ch)) bals \<and>
     sequence (state ch') = sequence (state ch) \<and>
     signatures (state ch') = []"
  using assms
  by (auto simp: set_balances_def Let_def split: sum.splits prod.splits
      dest!: set_balances_loop_frame)

lemma apply_payment_signatures:
  assumes "apply_payment sha ch payer amount tp = Inr (ch', tp')"
  shows "signatures (state ch') = [] \<and> participants ch' = participants ch
         \<and> payer \<in> set (dict_keys (participants ch))"
  using assms
  by (auto simp: apply_payment_def Let_def split: sum.splits prod.splits if_splits
      dest!: set_balances_frame)

text \<open>
  C7 (signature invalidation). After every successful \<^verbatim>\<open>apply_payment\<close>, on any
  channel and whatever was signed before, the signatures of the current state are
  empty and \<^verbatim>\<open>is_fully_signed()\<close> is false.
\<close>

theorem apply_payment_clears_signatures:
  assumes "apply_payment sha ch payer amount tp = Inr (ch', tp')"
  shows "signatures (state ch') = [] \<and> \<not> is_fully_signed ch'"
proof -
  from apply_payment_signatures [OF assms]
  have s: "signatures (state ch') = []" and "payer \<in> set (dict_keys (participants ch'))"
    by simp_all
  then have "dict_keys (participants ch') \<noteq> []" by auto
  with s show ?thesis
    by (cases "dict_keys (participants ch')") (simp_all add: is_fully_signed_def dict_keys_def)
qed


lemma random_scalar_usable:
  assumes "0 < q P" "0 < usable tp"
  shows "\<exists>k tp'. random_scalar P tp = Inr (k, tp') \<and> usable tp' + 1 = usable tp \<and> 0 \<le> k"
  using assms by (induction tp) (auto simp: usable_def)

lemma random_scalar_error:
  assumes "0 < q P" "random_scalar P tp = Inl e"
  shows "e = RngExhausted"
  using assms by (induction tp) (auto split: if_splits)

lemma random_scalar_Inr_usable:
  assumes "random_scalar P tp = Inr (k, tp')"
  shows "usable tp' + 1 = usable tp \<and> 0 \<le> k"
  using assms by (induction tp) (auto simp: usable_def split: if_splits)

lemma commit_shape:
  assumes sp: "subgroup_params P" and c: "commit P m rnd tp = Inr ((c, opn), tp')"
  shows "c = Commitment ((gexp (p P) (q P) (g P) m
                          * gexp (p P) (q P) (h P) (randomness opn)) mod p P)"
proof -
  have "p P \<noteq> 0" "q P \<noteq> 0" using sp by (auto simp: subgroup_params_def)
  with c show ?thesis
    by (auto simp: commit_def ebind_eq_Inr pow'_g [OF sp] pow'_h [OF sp] split: option.splits)
qed

lemma commit_None_total:
  assumes sp: "subgroup_params P" and u: "0 < usable tp"
  shows "\<exists>c opn tp'. commit P m None tp = Inr ((c, opn), tp') \<and> usable tp' + 1 = usable tp"
proof -
  have pq: "p P \<noteq> 0" "q P \<noteq> 0" "0 < q P" using sp by (auto simp: subgroup_params_def)
  from random_scalar_usable [OF pq(3) u] obtain k tp'
    where "random_scalar P tp = Inr (k, tp')" "usable tp' + 1 = usable tp" by blast
  with pq show ?thesis
    by (simp add: commit_def pow'_g [OF sp] pow'_h [OF sp])
qed

lemma commit_None_usable:
  assumes "commit P m None tp = Inr (x, tp')"
  shows "usable tp' + 1 = usable tp"
  using assms
  by (auto simp: commit_def ebind_eq_Inr dest: random_scalar_Inr_usable)

lemma commit_error:
  assumes sp: "subgroup_params P" and c: "commit P m rnd tp = Inl e"
  shows "e = RngExhausted"
proof -
  have pq: "p P \<noteq> 0" "q P \<noteq> 0" "0 < q P" using sp by (auto simp: subgroup_params_def)
  show ?thesis
  proof (cases "case rnd of Some r \<Rightarrow> Inr (r, tp) | None \<Rightarrow> random_scalar P tp")
    case (Inl e')
    with c have "e = e'" by (simp add: commit_def)
    moreover from Inl have "random_scalar P tp = Inl e'" by (cases rnd) simp_all
    ultimately show ?thesis using random_scalar_error [OF pq(3)] by blast
  next
    case (Inr x)
    with c pq show ?thesis
      by (cases x) (simp add: commit_def pow'_g [OF sp] pow'_h [OF sp])
  qed
qed

lemma prove_opening_total:
  assumes sp: "subgroup_params P" and u: "2 \<le> usable tp"
  shows "\<exists>prf tp'. prove_opening sha P m opn c ctx tp = Inr (prf, tp') \<and> usable tp' + 2 = usable tp"
proof -
  have pq: "p P \<noteq> 0" "q P \<noteq> 0" "0 < q P" using sp by (auto simp: subgroup_params_def)
  from u have "0 < usable tp" by simp
  from random_scalar_usable [OF pq(3) this] obtain w_m tp1
    where w1: "random_scalar P tp = Inr (w_m, tp1)" "usable tp1 + 1 = usable tp" by blast
  with u have "0 < usable tp1" by simp
  from random_scalar_usable [OF pq(3) this] obtain w_r tp2
    where w2: "random_scalar P tp1 = Inr (w_r, tp2)" "usable tp2 + 1 = usable tp1" by blast
  obtain ch where "compute_challenge sha P c
      ((gexp (p P) (q P) (g P) w_m * gexp (p P) (q P) (h P) w_r) mod p P) ctx = Inr ch"
    using compute_challenge_total [OF sp] by blast
  with w1 w2 pq show ?thesis
    by (simp add: prove_opening_def pow'_g [OF sp] pow'_h [OF sp])
qed

lemma prove_opening_usable:
  assumes "prove_opening sha P m opn c ctx tp = Inr (prf, tp')"
  shows "usable tp' + 2 = usable tp"
  using assms
  by (auto simp: prove_opening_def ebind_eq_Inr dest!: random_scalar_Inr_usable)

lemma ebind_eq_Inl:
  "ebind m f = Inl e \<longleftrightarrow> m = Inl e \<or> (\<exists>x. m = Inr x \<and> f x = Inl e)"
  by (cases m) (simp_all add: ebind_def)

lemma prove_opening_error:
  assumes sp: "subgroup_params P" and c: "prove_opening sha P m opn c ctx tp = Inl e"
  shows "e = RngExhausted"
proof -
  have pq: "p P \<noteq> 0" "q P \<noteq> 0" "0 < q P" using sp by (auto simp: subgroup_params_def)
  have ch: "\<And>tv. \<exists>ch. compute_challenge sha P c tv ctx = Inr ch"
    using compute_challenge_total [OF sp] by blast
  from c show ?thesis
    unfolding prove_opening_def
    apply (simp add: ebind_eq_Inl pow'_g [OF sp] pow'_h [OF sp] pq split: prod.splits)
    apply (elim disjE exE conjE)
      apply (erule random_scalar_error [OF pq(3)])
     apply (erule random_scalar_error [OF pq(3)])
    using ch apply (metis sum.distinct(1))
    done
qed

lemma verify_opening_proof_total:
  assumes sp: "subgroup_params P"
  shows "\<exists>b. verify_opening_proof sha P c' prf ctx = Inr b"
proof -
  have pq: "p P \<noteq> 0" "q P \<noteq> 0" "0 < q P" using sp by (auto simp: subgroup_params_def)
  obtain ch where ch: "compute_challenge sha P c' (t prf) ctx = Inr ch" "0 \<le> ch"
    using compute_challenge_total [OF sp] by blast
  have pw: "pow' (commitment_value c' mod p P) ch (p P)
              = Inr ((commitment_value c' mod p P) ^ nat ch mod p P)"
    using pq ch by (simp add: pow'_def py_pow_def)
  show ?thesis using pq ch(1)
    by (simp add: verify_opening_proof_def pow'_g [OF sp] pow'_h [OF sp] pw)
qed

lemma commit_prove_verify:
  assumes sp: "subgroup_params P"
    and c: "commit P m rnd tp = Inr ((c, opn), tp1)"
    and pr: "prove_opening sha P m opn c ctx tpa = Inr (prf, tpb)"
  shows "verify_opening_proof sha P c prf ctx = Inr True \<and> verify P c m opn = Inr True"
proof -
  note cs = commit_shape [OF sp c]
  obtain r where r: "opn = CommitmentOpening r" by (cases opn)
  from pr have "verify_opening_proof sha P c prf ctx = Inr True"
    unfolding cs r by (simp add: verify_opening_proof_complete [OF sp])
  moreover have "verify P c m opn = Inr True"
    unfolding cs by (simp add: verify_eq [OF sp])
  ultimately show ?thesis by simp
qed


lemma open_loop_error:
  assumes sp: "subgroup_params P"
  shows "open_loop sha P cid bals acc tp = Inl e \<Longrightarrow> e = RngExhausted"
proof (induction bals arbitrary: acc tp)
  case Nil
  then show ?case by simp
next
  case (Cons x bals)
  obtain pid balance where x: "x = (pid, balance)" by (cases x)
  obtain cms ops prs where acc: "acc = (cms, ops, prs)" by (cases acc) auto
  show ?case
  proof (cases "commit P balance None tp")
    case (Inl e')
    with Cons.prems have "e = e'" by (simp add: x acc)
    with commit_error [OF sp Inl] show ?thesis by simp
  next
    case (Inr y)
    obtain c opn tp1 where y: "y = ((c, opn), tp1)" by (cases y) auto
    show ?thesis
    proof (cases "prove_opening sha P balance opn c (proof_context cid 0 pid) tp1")
      case (Inl e')
      with Cons.prems Inr have "e = e'" by (simp add: x acc y)
      with prove_opening_error [OF sp Inl] show ?thesis by simp
    next
      case pr: (Inr z)
      obtain pf tp2 where z: "z = (pf, tp2)" by (cases z)
      from commit_prove_verify [OF sp Inr [unfolded y] pr [unfolded z]]
      have "verify_opening_proof sha P c pf (proof_context cid 0 pid) = Inr True" by simp
      with Cons.prems Inr pr
      have "open_loop sha P cid bals
              (dict_set cms pid c, dict_set ops pid opn, dict_set prs pid pf) tp2 = Inl e"
        by (simp add: x acc y z)
      then show ?thesis by (rule Cons.IH)
    qed
  qed
qed

lemma set_balances_loop_error:
  "subgroup_params (params ch) \<Longrightarrow> set_balances_loop sha ch bals prs tp = Inl (e, ch')
     \<Longrightarrow> e = RngExhausted"
proof (induction bals arbitrary: ch prs tp)
  case Nil
  then show ?case by simp
next
  case (Cons x bals)
  note sp = Cons.prems(1)
  obtain pid balance where x: "x = (pid, balance)" by (cases x)
  show ?case
  proof (cases "commit (params ch) balance None tp")
    case (Inl e')
    with Cons.prems have "e = e'" by (simp add: x)
    with commit_error [OF sp Inl] show ?thesis by simp
  next
    case (Inr y)
    obtain c opn tp1 where y: "y = ((c, opn), tp1)" by (cases y) auto
    let ?ctx = "proof_context (channel_id ch) (sequence (state ch)) pid"
    let ?ch1 = "ch\<lparr>state := (state ch)\<lparr>commitments := dict_set (commitments (state ch)) pid c,
                                        openings := dict_set (openings (state ch)) pid opn\<rparr>\<rparr>"
    show ?thesis
    proof (cases "prove_opening sha (params ch) balance opn c ?ctx tp1")
      case (Inl e')
      with Cons.prems Inr have "e = e'" by (simp add: x y Let_def)
      with prove_opening_error [OF sp Inl] show ?thesis by simp
    next
      case pr: (Inr z)
      obtain pf tp2 where z: "z = (pf, tp2)" by (cases z)
      from commit_prove_verify [OF sp Inr [unfolded y] pr [unfolded z]]
      have "verify_opening_proof sha (params ch) c pf ?ctx = Inr True" by simp
      with Cons.prems Inr pr
      have "set_balances_loop sha ?ch1 bals (dict_set prs pid pf) tp2 = Inl (e, ch')"
        by (simp add: x y z Let_def)
      moreover have "subgroup_params (params ?ch1)" using sp by simp
      ultimately show ?thesis using Cons.IH by blast
    qed
  qed
qed

lemma set_balances_loop_total:
  "subgroup_params (params ch) \<Longrightarrow> 3 * length bals \<le> usable tp \<Longrightarrow>
     \<exists>ch' prs' tp'. set_balances_loop sha ch bals prs tp = Inr (ch', prs', tp')
        \<and> usable tp' + 3 * length bals = usable tp"
proof (induction bals arbitrary: ch prs tp)
  case Nil
  then show ?case by simp
next
  case (Cons x bals)
  note sp = Cons.prems(1)
  obtain pid balance where x: "x = (pid, balance)" by (cases x)
  from Cons.prems(2) have "0 < usable tp" by simp
  from commit_None_total [OF sp this, of balance] obtain c opn tp1
    where c: "commit (params ch) balance None tp = Inr ((c, opn), tp1)"
      and u1: "usable tp1 + 1 = usable tp" by blast
  let ?ctx = "proof_context (channel_id ch) (sequence (state ch)) pid"
  let ?ch1 = "ch\<lparr>state := (state ch)\<lparr>commitments := dict_set (commitments (state ch)) pid c,
                                      openings := dict_set (openings (state ch)) pid opn\<rparr>\<rparr>"
  from Cons.prems(2) u1 have "2 \<le> usable tp1" by simp
  from prove_opening_total [OF sp this, of sha balance opn c ?ctx] obtain pf tp2
    where pr: "prove_opening sha (params ch) balance opn c ?ctx tp1 = Inr (pf, tp2)"
      and u2: "usable tp2 + 2 = usable tp1" by blast
  from commit_prove_verify [OF sp c pr]
  have v: "verify_opening_proof sha (params ch) c pf ?ctx = Inr True" by simp
  have "subgroup_params (params ?ch1)" using sp by simp
  moreover have "3 * length bals \<le> usable tp2" using Cons.prems(2) u1 u2 by simp
  ultimately obtain ch' prs' tp' where
    "set_balances_loop sha ?ch1 bals (dict_set prs pid pf) tp2 = Inr (ch', prs', tp')"
    "usable tp' + 3 * length bals = usable tp2"
    using Cons.IH by blast
  with c pr v u1 u2 show ?case
    by (simp add: x Let_def)
qed

lemma set_balances_error:
  assumes "subgroup_params (params ch)" "set_balances sha ch bals tp = Inl (e, ch')"
  shows "e = RngExhausted"
proof -
  let ?ch0 = "ch\<lparr>state := (state ch)\<lparr>balances := dict_update (balances (state ch)) bals\<rparr>\<rparr>"
  from assms(2) have "set_balances_loop sha ?ch0 bals [] tp = Inl (e, ch')"
    by (auto simp: set_balances_def Let_def split: sum.splits prod.splits)
  moreover have "subgroup_params (params ?ch0)" using assms(1) by simp
  ultimately show ?thesis by (rule set_balances_loop_error [rotated])
qed

lemma set_balances_total:
  assumes "subgroup_params (params ch)" "3 * length bals \<le> usable tp"
  shows "\<exists>ch' tp'. set_balances sha ch bals tp = Inr (ch', tp')
           \<and> usable tp' + 3 * length bals = usable tp"
proof -
  let ?ch0 = "ch\<lparr>state := (state ch)\<lparr>balances := dict_update (balances (state ch)) bals\<rparr>\<rparr>"
  have "subgroup_params (params ?ch0)" using assms(1) by simp
  from set_balances_loop_total [OF this assms(2), of sha "[]"] show ?thesis
    by (auto simp: set_balances_def Let_def)
qed

lemma Channel_open_error:
  assumes "subgroup_params P"
    and "Channel_open sha dA dB (Some P) ca ka uuid gen tp = Inl e"
  shows "e = RngExhausted \<or> (e = InvalidAmountError \<and> (dA < 0 \<or> dB < 0))"
  using assms(2)
  by (auto simp: Channel_open_def Let_def ebind_eq_Inl simp del: open_loop.simps
      split: if_splits dest: open_loop_error [OF assms(1)])


lemma open_loop_total:
  assumes sp: "subgroup_params P"
  shows "3 * length bals \<le> usable tp \<Longrightarrow>
     \<exists>acc' tp'. open_loop sha P cid bals acc tp = Inr (acc', tp')
        \<and> usable tp' + 3 * length bals = usable tp"
proof (induction bals arbitrary: acc tp)
  case Nil
  then show ?case by (cases acc) auto
next
  case (Cons x bals)
  obtain pid balance where x: "x = (pid, balance)" by (cases x)
  obtain cms ops prs where acc: "acc = (cms, ops, prs)" by (cases acc) auto
  from Cons.prems have "0 < usable tp" by simp
  from commit_None_total [OF sp this, of balance] obtain c opn tp1
    where c: "commit P balance None tp = Inr ((c, opn), tp1)"
      and u1: "usable tp1 + 1 = usable tp" by blast
  let ?ctx = "proof_context cid 0 pid"
  from Cons.prems u1 have "2 \<le> usable tp1" by simp
  from prove_opening_total [OF sp this, of sha balance opn c ?ctx] obtain pf tp2
    where pr: "prove_opening sha P balance opn c ?ctx tp1 = Inr (pf, tp2)"
      and u2: "usable tp2 + 2 = usable tp1" by blast
  from commit_prove_verify [OF sp c pr]
  have v: "verify_opening_proof sha P c pf ?ctx = Inr True" by simp
  have "3 * length bals \<le> usable tp2" using Cons.prems u1 u2 by simp
  from Cons.IH [OF this, of "(dict_set cms pid c, dict_set ops pid opn, dict_set prs pid pf)"]
  obtain acc' tp' where
    "open_loop sha P cid bals (dict_set cms pid c, dict_set ops pid opn, dict_set prs pid pf) tp2
       = Inr (acc', tp')"
    "usable tp' + 3 * length bals = usable tp2"
    by blast
  with c pr v u1 u2 show ?case
    by (cases acc') (simp add: x acc)
qed

lemma Channel_open_total:
  assumes "subgroup_params P" "0 \<le> dA" "0 \<le> dB" "6 \<le> usable tp"
  shows "\<exists>ch0 tp1. Channel_open sha dA dB (Some P) ca ka uuid gen tp = Inr (ch0, tp1)
           \<and> usable tp1 + 6 = usable tp"
proof -
  let ?cid = "case ca of Some c \<Rightarrow> if c = [] then uuid else c | None \<Rightarrow> uuid"
  have "3 * length [(''alice'', dA), (''bob'', dB)] \<le> usable tp" using assms(4) by simp
  from open_loop_total [OF assms(1) this, of sha ?cid "([], [], [])"]
  obtain acc' tp' where
    o: "open_loop sha P ?cid [(''alice'', dA), (''bob'', dB)] ([], [], []) tp = Inr (acc', tp')"
    and u: "usable tp' + 6 = usable tp" by auto
  obtain cms ops prs where acc: "acc' = (cms, ops, prs)" by (cases acc') auto
  show ?thesis using assms(2,3) o u
    by (simp add: Channel_open_def Let_def acc del: open_loop.simps)
qed

lemma Channel_open_fields:
  assumes "Channel_open sha dA dB pa ca ka uuid gen tp = Inr (ch0, tp1)"
  shows "0 \<le> dA \<and> 0 \<le> dB \<and> balances (state ch0) = [(''alice'', dA), (''bob'', dB)]
         \<and> sequence (state ch0) = 0 \<and> signatures (state ch0) = []
         \<and> history ch0 = [state ch0]
         \<and> (ka = None \<longrightarrow> dict_keys (participants ch0) = [''alice'', ''bob''])
         \<and> (\<forall>P. pa = Some P \<longrightarrow> params ch0 = P)"
  using assms
  by (auto simp: Channel_open_def Let_def ebind_eq_Inr dict_keys_def
      simp del: open_loop.simps split: if_splits)

lemma apply_payment_balances:
  assumes ap: "apply_payment sha ch payer amount tp = Inr (ch', tp')"
    and b: "balances (state ch) = [(''alice'', a), (''bob'', b)]"
  shows "\<exists>a' b'. balances (state ch') = [(''alice'', a'), (''bob'', b')] \<and> a' + b' = a + b
          \<and> 0 < amount
          \<and> (payer = ''alice'' \<and> a' = a - amount \<and> b' = b + amount \<and> amount \<le> a
              \<or> payer = ''bob'' \<and> a' = a + amount \<and> b' = b - amount \<and> amount \<le> b)"
  using ap b
  by (auto simp: apply_payment_def Let_def dict_item_def other_def dict_update_def
      split: sum.splits prod.splits if_splits option.splits dest!: set_balances_frame)

lemma apply_payment_frame:
  assumes ap: "apply_payment sha ch payer amount tp = Inr (ch', tp')"
  shows "channel_id ch' = channel_id ch \<and> params ch' = params ch
         \<and> participants ch' = participants ch
         \<and> sequence (state ch') = sequence (state ch) + 1
         \<and> history ch' = history ch @ [state ch']"
  using ap
  by (auto simp: apply_payment_def Let_def
      split: sum.splits prod.splits if_splits dest!: set_balances_frame)

lemma sign_state_frame:
  assumes "sign_state sha sg ch pid = Inr (s, ch')"
  shows "channel_id ch' = channel_id ch \<and> params ch' = params ch
         \<and> participants ch' = participants ch \<and> history ch' = history ch
         \<and> balances (state ch') = balances (state ch)
         \<and> sequence (state ch') = sequence (state ch)
         \<and> commitments (state ch') = commitments (state ch)
         \<and> openings (state ch') = openings (state ch)
         \<and> proofs (state ch') = proofs (state ch)"
  using assms
  by (auto simp: sign_state_def Let_def split: option.splits)

lemma reaches_invariant:
  assumes "reaches sha sg ch0 ch"
    and "balances (state ch0) = [(''alice'', dA), (''bob'', dB)]"
  shows "channel_id ch = channel_id ch0 \<and> params ch = params ch0
         \<and> participants ch = participants ch0
         \<and> (\<exists>a b. balances (state ch) = [(''alice'', a), (''bob'', b)] \<and> a + b = dA + dB)"
  using assms
proof (induction rule: reaches.induct)
  case reaches_start
  then show ?case by simp
next
  case (reaches_payment ch payer amount tp ch' tp')
  then obtain a b where ab: "balances (state ch) = [(''alice'', a), (''bob'', b)]"
    "a + b = dA + dB" by auto
  from apply_payment_balances [OF reaches_payment.hyps(2) ab(1)]
    apply_payment_frame [OF reaches_payment.hyps(2)] reaches_payment ab(2)
  show ?case by auto
next
  case (reaches_signature ch pid s ch')
  with sign_state_frame [OF reaches_signature.hyps(2)] show ?case by auto
qed

text \<open>
  C1 (balance conservation). For a channel that \<^verbatim>\<open>Channel.open\<close> returned for
  deposits \<open>dA\<close> and \<open>dB\<close> (it returns only for non-negative ones), after any
  number of successful \<^verbatim>\<open>apply_payment\<close> calls, with signatures in between or
  not, \<^verbatim>\<open>balances["alice"] + balances["bob"]\<close> is \<open>dA + dB\<close>.
\<close>

theorem balance_conservation:
  assumes "Channel_open sha dA dB pa ca ka uuid gen tp0 = Inr (ch0, tp1)"
    and "reaches sha sg ch0 ch"
  shows "\<exists>a b. dict_item (balances (state ch)) ''alice'' = Inr a
             \<and> dict_item (balances (state ch)) ''bob'' = Inr b
             \<and> a + b = dA + dB"
proof -
  from Channel_open_fields [OF assms(1)]
  have "balances (state ch0) = [(''alice'', dA), (''bob'', dB)]" by simp
  from reaches_invariant [OF assms(2) this] obtain a b
    where "balances (state ch) = [(''alice'', a), (''bob'', b)]" "a + b = dA + dB" by auto
  then show ?thesis by (auto simp: dict_item_def)
qed


lemma apply_payment_early:
  assumes keys: "set (dict_keys (participants ch)) = {''alice'', ''bob''}"
    and b: "balances (state ch) = [(''alice'', a), (''bob'', b)]"
  shows "payer \<noteq> ''alice'' \<and> payer \<noteq> ''bob'' \<Longrightarrow>
           apply_payment sha ch payer amount tp = Inl (InvalidParticipantError, ch)"
    and "payer = ''alice'' \<or> payer = ''bob'' \<Longrightarrow> amount \<le> 0 \<Longrightarrow>
           apply_payment sha ch payer amount tp = Inl (InvalidAmountError, ch)"
    and "payer = ''alice'' \<or> payer = ''bob'' \<Longrightarrow> 0 < amount \<Longrightarrow>
           dict_item (balances (state ch)) payer = Inr bal \<Longrightarrow> bal < amount \<Longrightarrow>
           apply_payment sha ch payer amount tp = Inl (InsufficientBalanceError, ch)"
  using keys b by (auto simp: apply_payment_def)

lemma apply_payment_late:
  assumes keys: "set (dict_keys (participants ch)) = {''alice'', ''bob''}"
    and b: "balances (state ch) = [(''alice'', a), (''bob'', b)]"
    and py: "payer = ''alice'' \<or> payer = ''bob''"
    and am: "0 < amount" "dict_item (balances (state ch)) payer = Inr bal" "amount \<le> bal"
  shows "\<exists>bals2. length bals2 = 2 \<and>
           apply_payment sha ch payer amount tp =
             (case set_balances sha
                     (ch\<lparr>state := (state ch)\<lparr>sequence := sequence (state ch) + 1\<rparr>\<rparr>) bals2 tp of
                Inl x \<Rightarrow> Inl x
              | Inr (ch2, tp') \<Rightarrow> Inr (ch2\<lparr>history := history ch2 @ [state ch2]\<rparr>, tp'))"
  using py
proof
  assume "payer = ''alice''"
  with keys b am show ?thesis
    by (intro exI [of _ "[(''alice'', a - amount), (''bob'', b + amount)]"])
       (auto simp: apply_payment_def dict_item_def other_def Let_def)
next
  assume "payer = ''bob''"
  with keys b am show ?thesis
    by (intro exI [of _ "[(''alice'', a + amount), (''bob'', b - amount)]"])
       (auto simp: apply_payment_def dict_item_def other_def Let_def)
qed

lemma apply_payment_std:
  assumes keys: "set (dict_keys (participants ch)) = {''alice'', ''bob''}"
    and b: "balances (state ch) = [(''alice'', a), (''bob'', b)]"
    and sp: "subgroup_params (params ch)"
  shows "(payer \<noteq> ''alice'' \<and> payer \<noteq> ''bob'' \<longrightarrow>
            apply_payment sha ch payer amount tp = Inl (InvalidParticipantError, ch))
       \<and> ((payer = ''alice'' \<or> payer = ''bob'') \<and> amount \<le> 0 \<longrightarrow>
            apply_payment sha ch payer amount tp = Inl (InvalidAmountError, ch))
       \<and> (\<forall>bal. (payer = ''alice'' \<or> payer = ''bob'') \<and> 0 < amount
              \<and> dict_item (balances (state ch)) payer = Inr bal \<and> bal < amount \<longrightarrow>
            apply_payment sha ch payer amount tp = Inl (InsufficientBalanceError, ch))
       \<and> (\<forall>bal. (payer = ''alice'' \<or> payer = ''bob'') \<and> 0 < amount
              \<and> dict_item (balances (state ch)) payer = Inr bal \<and> amount \<le> bal
              \<and> 6 \<le> usable tp \<longrightarrow>
            (\<exists>ch' tp'. apply_payment sha ch payer amount tp = Inr (ch', tp')))
       \<and> (\<forall>e ch'. apply_payment sha ch payer amount tp = Inl (e, ch') \<and> e \<noteq> RngExhausted \<longrightarrow>
            ch' = ch \<and> e \<in> {InvalidParticipantError, InvalidAmountError,
                             InsufficientBalanceError})"
proof (intro conjI allI impI)
  show "apply_payment sha ch payer amount tp = Inl (InvalidParticipantError, ch)"
    if "payer \<noteq> ''alice'' \<and> payer \<noteq> ''bob''"
    using apply_payment_early(1) [OF keys b that] .
  show "apply_payment sha ch payer amount tp = Inl (InvalidAmountError, ch)"
    if "(payer = ''alice'' \<or> payer = ''bob'') \<and> amount \<le> 0"
    using apply_payment_early(2) [OF keys b] that by blast
  show "apply_payment sha ch payer amount tp = Inl (InsufficientBalanceError, ch)"
    if "(payer = ''alice'' \<or> payer = ''bob'') \<and> 0 < amount
          \<and> dict_item (balances (state ch)) payer = Inr bal \<and> bal < amount" for bal
    using apply_payment_early(3) [OF keys b] that by blast
  let ?ch1 = "ch\<lparr>state := (state ch)\<lparr>sequence := sequence (state ch) + 1\<rparr>\<rparr>"
  have sp1: "subgroup_params (params ?ch1)" using sp by simp
  show "\<exists>ch' tp'. apply_payment sha ch payer amount tp = Inr (ch', tp')"
    if h: "(payer = ''alice'' \<or> payer = ''bob'') \<and> 0 < amount
          \<and> dict_item (balances (state ch)) payer = Inr bal \<and> amount \<le> bal
          \<and> 6 \<le> usable tp" for bal
  proof -
    from apply_payment_late [OF keys b, of payer amount bal sha tp] h
    obtain bals2 where l: "length bals2 = 2"
      and e: "apply_payment sha ch payer amount tp =
             (case set_balances sha ?ch1 bals2 tp of
                Inl x \<Rightarrow> Inl x
              | Inr (ch2, tp') \<Rightarrow> Inr (ch2\<lparr>history := history ch2 @ [state ch2]\<rparr>, tp'))"
      by blast
    from h l have "3 * length bals2 \<le> usable tp" by simp
    from set_balances_total [OF sp1 this, of sha] show ?thesis
      unfolding e by auto
  qed
  fix e ch'
  assume f: "apply_payment sha ch payer amount tp = Inl (e, ch') \<and> e \<noteq> RngExhausted"
  have "ch' = ch \<and> e \<in> {InvalidParticipantError, InvalidAmountError, InsufficientBalanceError}"
  proof (cases "payer = ''alice'' \<or> payer = ''bob''")
    case False
    with apply_payment_early(1) [OF keys b, of payer sha amount tp] f show ?thesis by simp
  next
    case py: True
    show ?thesis
    proof (cases "amount \<le> 0")
      case True
      with apply_payment_early(2) [OF keys b py, of amount sha tp] f show ?thesis by simp
    next
      case False
      from py b obtain bal where bal: "dict_item (balances (state ch)) payer = Inr bal"
        by (auto simp: dict_item_def)
      show ?thesis
      proof (cases "bal < amount")
        case True
        with apply_payment_early(3) [OF keys b py _ bal, of amount sha tp] False f
        show ?thesis by simp
      next
        case nb: False
        from apply_payment_late [OF keys b py _ bal, of amount sha tp] False nb
        obtain bals2 where
          e: "apply_payment sha ch payer amount tp =
             (case set_balances sha ?ch1 bals2 tp of
                Inl x \<Rightarrow> Inl x
              | Inr (ch2, tp') \<Rightarrow> Inr (ch2\<lparr>history := history ch2 @ [state ch2]\<rparr>, tp'))"
          by auto
        from f have "set_balances sha ?ch1 bals2 tp = Inl (e, ch')"
          unfolding e by (auto split: sum.splits prod.splits)
        from set_balances_error [OF sp1 this] f show ?thesis by simp
      qed
    qed
  qed
  then show "ch' = ch"
    and "e \<in> {InvalidParticipantError, InvalidAmountError, InsufficientBalanceError}"
    by simp_all
qed


lemma demo_subgroup: "subgroup_params demo_params"
  by (simp add: subgroup_params_def demo_params_def)

lemma usable_demo_tape: "usable demo_tape = 12"
  by (simp add: usable_def demo_tape_def)

lemma demo_open:
  "\<exists>ch0 tp1. Channel_open demo_sha 200 50 (Some demo_params) None None ''c1'' (''ka'', ''kb'')
       demo_tape = Inr (ch0, tp1) \<and> usable tp1 = 6"
  using Channel_open_total [OF demo_subgroup, of 200 50 demo_tape
      demo_sha None None "''c1''" "(''ka'', ''kb'')"]
  by (simp add: usable_demo_tape)

lemma opened_standard:
  assumes "Channel_open sha dA dB (Some P) ca None uuid gen tp = Inr (ch0, tp1)"
  shows "set (dict_keys (participants ch0)) = {''alice'', ''bob''}"
    and "balances (state ch0) = [(''alice'', dA), (''bob'', dB)]"
    and "params ch0 = P"
  using Channel_open_fields [OF assms] by auto

lemma demo_open_pay:
  "\<exists>ch0 tp1 ch tp2.
     Channel_open demo_sha 200 50 (Some demo_params) None None ''c1'' (''ka'', ''kb'')
       demo_tape = Inr (ch0, tp1) \<and>
     apply_payment demo_sha ch0 ''alice'' 25 tp1 = Inr (ch, tp2)"
proof -
  from demo_open obtain ch0 tp1 where
    o: "Channel_open demo_sha 200 50 (Some demo_params) None None ''c1'' (''ka'', ''kb'')
       demo_tape = Inr (ch0, tp1)" and u: "usable tp1 = 6"
    by blast
  note st = opened_standard [OF o]
  have sp: "subgroup_params (params ch0)" using st(3) demo_subgroup by simp
  have "dict_item (balances (state ch0)) ''alice'' = Inr 200"
    by (simp add: st(2) dict_item_def)
  with apply_payment_std [OF st(1) st(2) sp, of "''alice''" demo_sha 25 tp1] u
  obtain ch tp2 where "apply_payment demo_sha ch0 ''alice'' 25 tp1 = Inr (ch, tp2)"
    by auto
  with o show ?thesis by blast
qed

theorem balance_conservation_witness:
  "\<exists>ch0 tp1 ch tp2.
     Channel_open demo_sha 200 50 (Some demo_params) None None ''c1'' (''ka'', ''kb'')
       demo_tape = Inr (ch0, tp1) \<and>
     apply_payment demo_sha ch0 ''alice'' 25 tp1 = Inr (ch, tp2) \<and>
     reaches demo_sha demo_sig ch0 ch \<and>
     (\<exists>a b. dict_item (balances (state ch)) ''alice'' = Inr a
           \<and> dict_item (balances (state ch)) ''bob'' = Inr b
           \<and> a + b = 200 + 50)"
proof -
  from demo_open_pay obtain ch0 tp1 ch tp2 where
    o: "Channel_open demo_sha 200 50 (Some demo_params) None None ''c1'' (''ka'', ''kb'')
       demo_tape = Inr (ch0, tp1)"
    and a: "apply_payment demo_sha ch0 ''alice'' 25 tp1 = Inr (ch, tp2)"
    by blast
  have r: "reaches demo_sha demo_sig ch0 ch"
    by (rule reaches_payment [OF reaches_start a])
  from balance_conservation [OF o r] o a r show ?thesis by blast
qed


lemma prove_opening_two_draws:
  assumes sp: "subgroup_params P" and w: "w_m \<noteq> 0" "w_r \<noteq> 0"
  shows "\<exists>pf. prove_opening sha P m opn c ctx [w_m, w_r] = Inr (pf, [])"
proof -
  have pq: "p P \<noteq> 0" "q P \<noteq> 0" "0 < q P" using sp by (auto simp: subgroup_params_def)
  obtain ch where "compute_challenge sha P c
      ((gexp (p P) (q P) (g P) (int w_m) * gexp (p P) (q P) (h P) (int w_r)) mod p P) ctx = Inr ch"
    using compute_challenge_total [OF sp] by blast
  with w pq show ?thesis
    by (simp add: prove_opening_def pow'_g [OF sp] pow'_h [OF sp])
qed

text \<open>
  C5 (proof completeness, unreachable self-check failure). For every integer message
  \<open>m\<close>, every integer randomness \<open>r\<close>, every context and every pair of non-zero nonces
  \<open>w_m\<close>, \<open>w_r\<close> drawn by \<^verbatim>\<open>prove_opening\<close>, the proof it returns for the commitment
  of \<open>m\<close> under \<open>r\<close> is accepted by \<^verbatim>\<open>verify_opening_proof\<close> with the same context.
  Hence \<^verbatim>\<open>Channel.open\<close> and \<^verbatim>\<open>Channel._set_balances\<close> never raise the
  \<open>ChannelError\<close> of their self-check.
\<close>

theorem schnorr_proof_accepted:
  assumes "subgroup_params P"
  shows "(\<forall>m r ctx w_m w_r tp. w_m \<noteq> 0 \<and> w_r \<noteq> 0 \<longrightarrow>
            (\<exists>c opn pf. commit P m (Some r) tp = Inr ((c, opn), tp)
               \<and> prove_opening sha P m opn c ctx [w_m, w_r] = Inr (pf, [])
               \<and> verify_opening_proof sha P c pf ctx = Inr True))
       \<and> (\<forall>dA dB ca ka uuid gen tp.
            Channel_open sha dA dB (Some P) ca ka uuid gen tp \<noteq> Inl ChannelError)
       \<and> (\<forall>ch bals tp ch'. params ch = P \<longrightarrow>
            set_balances sha ch bals tp \<noteq> Inl (ChannelError, ch'))"
proof (intro conjI allI impI)
  fix m r :: int and ctx :: bytes and w_m w_r :: nat and tp :: tape
  assume w: "w_m \<noteq> 0 \<and> w_r \<noteq> 0"
  let ?c = "Commitment ((gexp (p P) (q P) (g P) m * gexp (p P) (q P) (h P) r) mod p P)"
  note c = commit_Some [OF assms, of m r tp]
  from prove_opening_two_draws [OF assms, of w_m w_r sha m "CommitmentOpening r" ?c ctx] w
  obtain pf where pf: "prove_opening sha P m (CommitmentOpening r) ?c ctx [w_m, w_r] = Inr (pf, [])"
    by blast
  from commit_prove_verify [OF assms c pf] c pf
  show "\<exists>c opn pf. commit P m (Some r) tp = Inr ((c, opn), tp)
               \<and> prove_opening sha P m opn c ctx [w_m, w_r] = Inr (pf, [])
               \<and> verify_opening_proof sha P c pf ctx = Inr True"
    by blast
next
  fix dA dB :: int and ca ka uuid gen and tp :: tape
  show "Channel_open sha dA dB (Some P) ca ka uuid gen tp \<noteq> Inl ChannelError"
    using Channel_open_error [OF assms, of sha dA dB ca ka uuid gen tp ChannelError] by auto
next
  fix ch :: Channel and bals tp ch'
  assume "params ch = P"
  then have "subgroup_params (params ch)" using assms by simp
  from set_balances_error [OF this, of sha bals tp ChannelError ch']
  show "set_balances sha ch bals tp \<noteq> Inl (ChannelError, ch')" by auto
qed

theorem schnorr_proof_accepted_witness:
  "subgroup_params demo_params \<and>
   (\<exists>c opn pf. commit demo_params 77 (Some 5) [] = Inr ((c, opn), [])
        \<and> prove_opening demo_sha demo_params 77 opn c ''test-channel|0|alice'' [3, 4]
             = Inr (pf, [])
        \<and> verify_opening_proof demo_sha demo_params c pf ''test-channel|0|alice'' = Inr True) \<and>
   Channel_open demo_sha 200 50 (Some demo_params) None None ''c1'' (''ka'', ''kb'') demo_tape
     \<noteq> Inl ChannelError"
proof -
  note t = schnorr_proof_accepted [OF demo_subgroup, of demo_sha]
  have n: "(3::nat) \<noteq> 0 \<and> (4::nat) \<noteq> 0" by simp
  from t have "\<exists>c opn pf. commit demo_params 77 (Some 5) [] = Inr ((c, opn), [])
        \<and> prove_opening demo_sha demo_params 77 opn c ''test-channel|0|alice'' [3, 4]
             = Inr (pf, [])
        \<and> verify_opening_proof demo_sha demo_params c pf ''test-channel|0|alice'' = Inr True"
    using n by blast
  moreover from t have
    "Channel_open demo_sha 200 50 (Some demo_params) None None ''c1'' (''ka'', ''kb'') demo_tape
       \<noteq> Inl ChannelError"
    by blast
  ultimately show ?thesis using demo_subgroup by blast
qed

lemma sign_state_member:
  assumes "pid \<in> set (dict_keys (participants ch))"
  shows "\<exists>s ch'. sign_state sha sg ch pid = Inr (s, ch')
           \<and> signatures (state ch') = dict_set (signatures (state ch)) pid s"
proof -
  from assms obtain x where "map_of (participants ch) pid = Some x"
    by (auto simp: dict_keys_def dest: weak_map_of_SomeI)
  then show ?thesis by (simp add: sign_state_def Let_def)
qed

lemma dict_set_map_fst:
  "map fst (dict_set d k v) = (if k \<in> set (map fst d) then map fst d else map fst d @ [k])"
proof (induction d)
  case Nil
  show ?case by simp
next
  case (Cons x d)
  obtain k' v' where x: "x = (k', v')" by (cases x)
  show ?case
  proof (cases "k' = k")
    case True
    then show ?thesis by (simp add: x)
  next
    case False
    with Cons show ?thesis by (simp add: x)
  qed
qed

lemma dict_set_keys: "set (dict_keys (dict_set d k v)) = insert k (set (dict_keys d))"
  unfolding dict_keys_def dict_set_map_fst by auto

theorem apply_payment_clears_signatures_witness:
  "\<exists>ch0 tp1 sa ch1 sb ch2 ch3 tp2.
     Channel_open demo_sha 200 50 (Some demo_params) None None ''c1'' (''ka'', ''kb'')
       demo_tape = Inr (ch0, tp1) \<and>
     sign_state demo_sha demo_sig ch0 ''alice'' = Inr (sa, ch1) \<and>
     sign_state demo_sha demo_sig ch1 ''bob'' = Inr (sb, ch2) \<and>
     is_fully_signed ch2 \<and>
     apply_payment demo_sha ch2 ''alice'' 25 tp1 = Inr (ch3, tp2) \<and>
     signatures (state ch3) = [] \<and> \<not> is_fully_signed ch3"
proof -
  from demo_open obtain ch0 tp1 where
    o: "Channel_open demo_sha 200 50 (Some demo_params) None None ''c1'' (''ka'', ''kb'')
       demo_tape = Inr (ch0, tp1)" and u: "usable tp1 = 6"
    by blast
  note st = opened_standard [OF o]
  from sign_state_member [of "''alice''" ch0 demo_sha demo_sig] st(1)
  obtain sa ch1 where s1: "sign_state demo_sha demo_sig ch0 ''alice'' = Inr (sa, ch1)"
    and g1: "signatures (state ch1) = dict_set (signatures (state ch0)) ''alice'' sa"
    by auto
  note f1 = sign_state_frame [OF s1]
  from sign_state_member [of "''bob''" ch1 demo_sha demo_sig] st(1) f1
  obtain sb ch2 where s2: "sign_state demo_sha demo_sig ch1 ''bob'' = Inr (sb, ch2)"
    and g2: "signatures (state ch2) = dict_set (signatures (state ch1)) ''bob'' sb"
    by auto
  note f2 = sign_state_frame [OF s2]
  have keys2: "set (dict_keys (participants ch2)) = {''alice'', ''bob''}"
    using st(1) f1 f2 by simp
  have "set (dict_keys (signatures (state ch2))) \<supseteq> {''alice'', ''bob''}"
    by (simp add: g1 g2 dict_set_keys)
  with keys2 have fs: "is_fully_signed ch2"
    by (auto simp: is_fully_signed_def list_all_iff)
  have b2: "balances (state ch2) = [(''alice'', 200), (''bob'', 50)]"
    using st(2) f1 f2 by simp
  have sp: "subgroup_params (params ch2)" using st(3) f1 f2 demo_subgroup by simp
  have "dict_item (balances (state ch2)) ''alice'' = Inr 200"
    by (simp add: b2 dict_item_def)
  with apply_payment_std [OF keys2 b2 sp, of "''alice''" demo_sha 25 tp1] u
  obtain ch3 tp2 where a: "apply_payment demo_sha ch2 ''alice'' 25 tp1 = Inr (ch3, tp2)"
    by auto
  from apply_payment_clears_signatures [OF a] o s1 s2 fs a show ?thesis by blast
qed

text \<open>
  C8 (failure taxonomy of \<^verbatim>\<open>apply_payment\<close>). For a channel opened with the two
  participants alice and bob, in any state it reaches: a payer that is neither raises
  InvalidParticipantError; otherwise an amount of 0 or less raises InvalidAmountError;
  otherwise an amount above the payer's balance raises InsufficientBalanceError;
  otherwise the call succeeds (given six accepted random draws); and every failure
  leaves the channel, state and history, as it was.
\<close>

theorem apply_payment_failure_taxonomy:
  assumes op: "Channel_open sha dA dB pa ca ka uuid gen tp0 = Inr (ch0, tp1)"
    and std: "set (dict_keys (participants ch0)) = {''alice'', ''bob''}"
    and sp: "subgroup_params (params ch0)"
    and re: "reaches sha sg ch0 ch"
  shows "(payer \<noteq> ''alice'' \<and> payer \<noteq> ''bob'' \<longrightarrow>
            apply_payment sha ch payer amount tp = Inl (InvalidParticipantError, ch))
       \<and> ((payer = ''alice'' \<or> payer = ''bob'') \<and> amount \<le> 0 \<longrightarrow>
            apply_payment sha ch payer amount tp = Inl (InvalidAmountError, ch))
       \<and> (\<forall>bal. (payer = ''alice'' \<or> payer = ''bob'') \<and> 0 < amount
              \<and> dict_item (balances (state ch)) payer = Inr bal \<and> bal < amount \<longrightarrow>
            apply_payment sha ch payer amount tp = Inl (InsufficientBalanceError, ch))
       \<and> (\<forall>bal. (payer = ''alice'' \<or> payer = ''bob'') \<and> 0 < amount
              \<and> dict_item (balances (state ch)) payer = Inr bal \<and> amount \<le> bal
              \<and> 6 \<le> usable tp \<longrightarrow>
            (\<exists>ch' tp'. apply_payment sha ch payer amount tp = Inr (ch', tp')))
       \<and> (\<forall>e ch'. apply_payment sha ch payer amount tp = Inl (e, ch') \<and> e \<noteq> RngExhausted \<longrightarrow>
            ch' = ch \<and> e \<in> {InvalidParticipantError, InvalidAmountError,
                             InsufficientBalanceError})"
proof -
  from Channel_open_fields [OF op]
  have b0: "balances (state ch0) = [(''alice'', dA), (''bob'', dB)]" by simp
  from reaches_invariant [OF re b0] obtain a b where
    "participants ch = participants ch0" "params ch = params ch0"
    "balances (state ch) = [(''alice'', a), (''bob'', b)]"
    by auto
  with std sp show ?thesis
    by (intro apply_payment_std) simp_all
qed


theorem apply_payment_failure_taxonomy_witness:
  "\<exists>ch0 tp1.
     Channel_open demo_sha 200 50 (Some demo_params) None None ''c1'' (''ka'', ''kb'')
       demo_tape = Inr (ch0, tp1) \<and>
     set (dict_keys (participants ch0)) = {''alice'', ''bob''} \<and>
     subgroup_params (params ch0) \<and>
     reaches demo_sha demo_sig ch0 ch0 \<and>
     apply_payment demo_sha ch0 ''carol'' 5 tp1 = Inl (InvalidParticipantError, ch0) \<and>
     apply_payment demo_sha ch0 ''alice'' 0 tp1 = Inl (InvalidAmountError, ch0) \<and>
     apply_payment demo_sha ch0 ''alice'' (- 5) tp1 = Inl (InvalidAmountError, ch0) \<and>
     apply_payment demo_sha ch0 ''alice'' 201 tp1 = Inl (InsufficientBalanceError, ch0) \<and>
     (\<exists>ch' tp'. apply_payment demo_sha ch0 ''alice'' 25 tp1 = Inr (ch', tp'))"
proof -
  from demo_open obtain ch0 tp1 where
    o: "Channel_open demo_sha 200 50 (Some demo_params) None None ''c1'' (''ka'', ''kb'')
       demo_tape = Inr (ch0, tp1)" and u: "usable tp1 = 6"
    by blast
  note st = opened_standard [OF o]
  have sp: "subgroup_params (params ch0)" using st(3) demo_subgroup by simp
  have r: "reaches demo_sha demo_sig ch0 ch0" by (rule reaches_start)
  have bal: "dict_item (balances (state ch0)) ''alice'' = Inr 200"
    by (simp add: st(2) dict_item_def)
  note t = apply_payment_failure_taxonomy [OF o st(1) sp r]
  from t [of "''carol''" 5 tp1]
  have 1: "apply_payment demo_sha ch0 ''carol'' 5 tp1 = Inl (InvalidParticipantError, ch0)"
    by simp
  from t [of "''alice''" 0 tp1]
  have 2: "apply_payment demo_sha ch0 ''alice'' 0 tp1 = Inl (InvalidAmountError, ch0)"
    by simp
  from t [of "''alice''" "- 5" tp1]
  have 3: "apply_payment demo_sha ch0 ''alice'' (- 5) tp1 = Inl (InvalidAmountError, ch0)"
    by simp
  from t [of "''alice''" 201 tp1] bal
  have 4: "apply_payment demo_sha ch0 ''alice'' 201 tp1 = Inl (InsufficientBalanceError, ch0)"
    by simp
  from t [of "''alice''" 25 tp1] bal u
  have 5: "\<exists>ch' tp'. apply_payment demo_sha ch0 ''alice'' 25 tp1 = Inr (ch', tp')"
    by simp
  from o st(1) sp r 1 2 3 4 5 show ?thesis by blast
qed

subsection \<open>Hexadecimal round trips\<close>

lemma hex_val_hex_digit:
  assumes "d < 16"
  shows "hex_val (hex_digit d) = Some d"
proof -
  from assms have "d \<in> {0, 1, 2, 3, 4, 5, 6, 7, 8, 9, 10, 11, 12, 13, 14, 15}"
    by (simp only: insert_iff empty_iff) arith
  then show ?thesis
    by (auto simp: hex_val_def hex_digit_def)
qed

lemma hex_val_not_digit:
  "hex_val CHR ''-'' = None" "hex_val CHR ''+'' = None" "hex_val CHR ''_'' = None"
  "hex_val CHR ''x'' = None" "hex_val CHR ''X'' = None"
  by (simp_all add: hex_val_def)

lemma is_space_hex_val: "is_space c \<Longrightarrow> hex_val c = None"
  by (auto simp: is_space_def hex_val_def Let_def)

lemma hex_digits_val_append:
  "hex_digits_val acc (xs @ ys) =
     (case hex_digits_val acc xs of None \<Rightarrow> None | Some a \<Rightarrow> hex_digits_val a ys)"
  by (induction xs arbitrary: acc) (auto split: option.splits)

lemma hex_digits_val_hex_nat: "hex_digits_val 0 (hex_nat n) = Some n"
proof (induction n rule: hex_nat.induct)
  case (1 n)
  show ?case
  proof (cases "n < 16")
    case True
    then show ?thesis
      by (subst hex_nat.simps) (simp add: hex_val_hex_digit)
  next
    case False
    with 1 have "hex_digits_val 0 (hex_nat (n div 16)) = Some (n div 16)" by simp
    with False show ?thesis
      by (subst hex_nat.simps) (simp add: hex_digits_val_append hex_val_hex_digit)
  qed
qed

lemma hex_nat_digits: "list_all (\<lambda>c. hex_val c \<noteq> None) (hex_nat n) \<and> hex_nat n \<noteq> []"
proof (induction n rule: hex_nat.induct)
  case (1 n)
  show ?case
  proof (cases "n < 16")
    case True
    then show ?thesis
      by (subst (1 2) hex_nat.simps) (simp add: hex_val_hex_digit)
  next
    case False
    with 1 have "list_all (\<lambda>c. hex_val c \<noteq> None) (hex_nat (n div 16))" by simp
    with False show ?thesis
      by (subst (1 2) hex_nat.simps) (simp add: hex_val_hex_digit)
  qed
qed

lemma scan_digits_all_digits:
  "list_all (\<lambda>c. hex_val c \<noteq> None) ds \<Longrightarrow>
     scan_digits acc False ds = map_option (\<lambda>v. (v, [])) (hex_digits_val acc ds)"
proof (induction ds arbitrary: acc)
  case Nil
  show ?case by simp
next
  case (Cons c ds)
  then obtain d where d: "hex_val c = Some d" by auto
  then have "c \<noteq> CHR ''_''" using hex_val_not_digit(3) by auto
  with Cons d show ?case by simp
qed

lemma int_of_hex_digits:
  assumes a: "list_all (\<lambda>c. hex_val c \<noteq> None) ds" and ne: "ds \<noteq> []"
    and v: "hex_digits_val 0 ds = Some n"
  shows "int_of_hex ds = Inr (int n)" and "int_of_hex (CHR ''-'' # ds) = Inr (- int n)"
proof -
  from ne obtain c cs where ds: "ds = c # cs" by (cases ds) auto
  with a have c: "hex_val c \<noteq> None" by simp
  then have nc: "\<not> is_space c" "c \<noteq> CHR ''-''" "c \<noteq> CHR ''+''"
    using is_space_hex_val hex_val_not_digit by auto
  have sc: "scan_digits 0 False ds = Some (n, [])"
    using scan_digits_all_digits [OF a, of 0] v by simp
  have ms: "\<not> is_space CHR ''-''" by (simp add: is_space_def)
  show "int_of_hex ds = Inr (int n)"
    using nc c sc [unfolded ds] a [unfolded ds]
    by (cases cs)
       (auto simp: int_of_hex_def Let_def ds hex_val_not_digit simp del: scan_digits.simps)
  show "int_of_hex (CHR ''-'' # ds) = Inr (- int n)"
    using ms c sc [unfolded ds] a [unfolded ds]
    by (cases cs)
       (auto simp: int_of_hex_def Let_def ds hex_val_not_digit simp del: scan_digits.simps)
qed

lemma int_of_hex_format_x: "int_of_hex (format_x v) = Inr v"
proof (cases "v < 0")
  case True
  with int_of_hex_digits(2) [of "hex_nat (nat (- v))" "nat (- v)"]
    hex_nat_digits [of "nat (- v)"] hex_digits_val_hex_nat [of "nat (- v)"]
  show ?thesis by (simp add: format_x_def)
next
  case False
  with int_of_hex_digits(1) [of "hex_nat (nat v)" "nat v"]
    hex_nat_digits [of "nat v"] hex_digits_val_hex_nat [of "nat v"]
  show ?thesis by (simp add: format_x_def)
qed

lemma bytes_fromhex_bytes_hex: "bytes_fromhex (bytes_hex bs) = Inr bs"
proof (induction bs)
  case Nil
  show ?case by simp
next
  case (Cons c bs)
  have "(of_char c :: nat) < 256" by simp
  then have d: "(of_char c :: nat) div 16 < 16" by arith
  have m: "(of_char c :: nat) mod 16 < 16" by simp
  have ns: "\<not> is_space (hex_digit (of_char c div 16))"
    using is_space_hex_val hex_val_hex_digit [OF d] by fastforce
  have "char_of ((of_char c :: nat) div 16 * 16 + of_char c mod 16) = c" by simp
  with Cons d m ns show ?case
    by (simp add: hex_val_hex_digit)
qed

subsection \<open>The invariant of the channel state\<close>

lemma open_loop_pair:
  assumes sp: "subgroup_params P"
    and l: "open_loop sha P cid [(''alice'', a), (''bob'', b)] ([], [], []) tp
              = Inr ((cms, ops, prs), tp')"
  shows "\<exists>ca cb oa ob pa pb.
           cms = [(''alice'', ca), (''bob'', cb)] \<and> ops = [(''alice'', oa), (''bob'', ob)] \<and>
           prs = [(''alice'', pa), (''bob'', pb)] \<and>
           verify P ca a oa = Inr True \<and> verify P cb b ob = Inr True \<and>
           verify_opening_proof sha P ca pa (proof_context cid 0 ''alice'') = Inr True \<and>
           verify_opening_proof sha P cb pb (proof_context cid 0 ''bob'') = Inr True"
proof -
  from l obtain ca oa t1 pa t2 cb ob t3 pb where
    c1: "commit P a None tp = Inr ((ca, oa), t1)"
    and p1: "prove_opening sha P a oa ca (proof_context cid 0 ''alice'') t1 = Inr (pa, t2)"
    and c2: "commit P b None t2 = Inr ((cb, ob), t3)"
    and p2: "prove_opening sha P b ob cb (proof_context cid 0 ''bob'') t3 = Inr (pb, tp')"
    and r: "cms = [(''alice'', ca), (''bob'', cb)]" "ops = [(''alice'', oa), (''bob'', ob)]"
       "prs = [(''alice'', pa), (''bob'', pb)]"
    by (auto simp: ebind_eq_Inr Let_def split: if_splits)
  from commit_prove_verify [OF sp c1 p1] commit_prove_verify [OF sp c2 p2] r
  show ?thesis by simp
qed

lemma Channel_open_consistent:
  assumes sp: "subgroup_params P"
    and o: "Channel_open sha dA dB (Some P) ca ka uuid gen tp = Inr (ch0, tp1)"
  shows "consistent_state sha P (channel_id ch0) (state ch0)"
proof -
  let ?cid = "case ca of Some c \<Rightarrow> if c = [] then uuid else c | None \<Rightarrow> uuid"
  from o obtain cms ops prs where
    l: "open_loop sha P ?cid [(''alice'', dA), (''bob'', dB)] ([], [], []) tp
          = Inr ((cms, ops, prs), tp1)"
    and c: "channel_id ch0 = ?cid"
    and s: "state ch0 = \<lparr>sequence = 0, balances = [(''alice'', dA), (''bob'', dB)],
              commitments = cms, openings = ops, proofs = prs, signatures = []\<rparr>"
    by (auto simp: Channel_open_def Let_def ebind_eq_Inr simp del: open_loop.simps
        split: if_splits)
  from open_loop_pair [OF sp l] show ?thesis
    unfolding consistent_state_def c s by simp
qed


lemma set_balances_loop_pair:
  assumes sp: "subgroup_params (params ch)"
    and sc: "commitments (state ch) = [(''alice'', xa), (''bob'', xb)]"
    and so: "openings (state ch) = [(''alice'', ya), (''bob'', yb)]"
    and l: "set_balances_loop sha ch [(''alice'', a), (''bob'', b)] [] tp = Inr (ch', prs', tp')"
  shows "\<exists>ca cb oa ob pa pb.
           commitments (state ch') = [(''alice'', ca), (''bob'', cb)] \<and>
           openings (state ch') = [(''alice'', oa), (''bob'', ob)] \<and>
           prs' = [(''alice'', pa), (''bob'', pb)] \<and>
           verify (params ch) ca a oa = Inr True \<and> verify (params ch) cb b ob = Inr True \<and>
           verify_opening_proof sha (params ch) ca pa
             (proof_context (channel_id ch) (sequence (state ch)) ''alice'') = Inr True \<and>
           verify_opening_proof sha (params ch) cb pb
             (proof_context (channel_id ch) (sequence (state ch)) ''bob'') = Inr True"
proof -
  let ?P = "params ch"
  let ?ctx = "\<lambda>pid. proof_context (channel_id ch) (sequence (state ch)) pid"
  from l sc so obtain ca oa t1 pa t2 cb ob t3 pb where
    c1: "commit ?P a None tp = Inr ((ca, oa), t1)"
    and p1: "prove_opening sha ?P a oa ca (?ctx ''alice'') t1 = Inr (pa, t2)"
    and c2: "commit ?P b None t2 = Inr ((cb, ob), t3)"
    and p2: "prove_opening sha ?P b ob cb (?ctx ''bob'') t3 = Inr (pb, tp')"
    and r: "commitments (state ch') = [(''alice'', ca), (''bob'', cb)]"
       "openings (state ch') = [(''alice'', oa), (''bob'', ob)]"
       "prs' = [(''alice'', pa), (''bob'', pb)]"
    by (auto simp: Let_def split: sum.splits prod.splits if_splits)
  from commit_prove_verify [OF sp c1 p1] commit_prove_verify [OF sp c2 p2] r
  show ?thesis by simp
qed

lemma apply_payment_set_balances:
  assumes ap: "apply_payment sha ch payer amount tp = Inr (ch', tp')"
    and b: "balances (state ch) = [(''alice'', a), (''bob'', b)]"
  shows "\<exists>a' b' ch2.
           set_balances sha (ch\<lparr>state := (state ch)\<lparr>sequence := sequence (state ch) + 1\<rparr>\<rparr>)
             [(''alice'', a'), (''bob'', b')] tp = Inr (ch2, tp') \<and>
           ch' = ch2\<lparr>history := history ch2 @ [state ch2]\<rparr>"
  using ap b
  by (auto simp: apply_payment_def Let_def dict_item_def other_def
      split: sum.splits prod.splits if_splits option.splits)

lemma set_balances_consistent:
  assumes sp: "subgroup_params (params ch)"
    and sc: "commitments (state ch) = [(''alice'', xa), (''bob'', xb)]"
    and so: "openings (state ch) = [(''alice'', ya), (''bob'', yb)]"
    and sb: "balances (state ch) = [(''alice'', za), (''bob'', zb)]"
    and s: "set_balances sha ch [(''alice'', a), (''bob'', b)] tp = Inr (ch', tp')"
  shows "consistent_state sha (params ch) (channel_id ch) (state ch')"
proof -
  let ?ch0 = "ch\<lparr>state := (state ch)\<lparr>balances :=
                 dict_update (balances (state ch)) [(''alice'', a), (''bob'', b)]\<rparr>\<rparr>"
  from s obtain ch1 prs' where
    l: "set_balances_loop sha ?ch0 [(''alice'', a), (''bob'', b)] [] tp = Inr (ch1, prs', tp')"
    and e: "ch' = ch1\<lparr>state := (state ch1)\<lparr>proofs := prs', signatures := []\<rparr>\<rparr>"
    by (auto simp: set_balances_def Let_def split: sum.splits prod.splits
        simp del: set_balances_loop.simps)
  have sp0: "subgroup_params (params ?ch0)" using sp by simp
  have sc0: "commitments (state ?ch0) = [(''alice'', xa), (''bob'', xb)]" using sc by simp
  have so0: "openings (state ?ch0) = [(''alice'', ya), (''bob'', yb)]" using so by simp
  note f = set_balances_loop_frame [OF l]
  have bal: "balances (state ch1) = [(''alice'', a), (''bob'', b)]"
    using f sb by (simp add: dict_update_def)
  have sq: "sequence (state ch1) = sequence (state ch)" using f by simp
  from set_balances_loop_pair [OF sp0 sc0 so0 l] bal sq show ?thesis
    unfolding consistent_state_def e by simp
qed

lemma apply_payment_consistent:
  assumes sp: "subgroup_params (params ch)"
    and cs: "consistent_state sha (params ch) (channel_id ch) (state ch)"
    and ap: "apply_payment sha ch payer amount tp = Inr (ch', tp')"
  shows "consistent_state sha (params ch') (channel_id ch') (state ch')"
proof -
  from cs obtain a b xa xb ya yb where
    b: "balances (state ch) = [(''alice'', a), (''bob'', b)]"
    and c: "commitments (state ch) = [(''alice'', xa), (''bob'', xb)]"
    and o: "openings (state ch) = [(''alice'', ya), (''bob'', yb)]"
    unfolding consistent_state_def by blast
  let ?ch1 = "ch\<lparr>state := (state ch)\<lparr>sequence := sequence (state ch) + 1\<rparr>\<rparr>"
  from apply_payment_set_balances [OF ap b] obtain a' b' ch2 where
    s: "set_balances sha ?ch1 [(''alice'', a'), (''bob'', b')] tp = Inr (ch2, tp')"
    and e: "ch' = ch2\<lparr>history := history ch2 @ [state ch2]\<rparr>"
    by blast
  have "consistent_state sha (params ?ch1) (channel_id ?ch1) (state ch2)"
    by (rule set_balances_consistent [OF _ _ _ _ s]) (simp_all add: sp b c o)
  moreover from set_balances_frame [OF s]
  have "params ch2 = params ch" "channel_id ch2 = channel_id ch" by simp_all
  ultimately show ?thesis unfolding e by simp
qed

lemma sign_state_consistent:
  assumes "consistent_state sha P cid (state ch)"
    and "sign_state sha sg ch pid = Inr (s, ch')"
  shows "consistent_state sha P cid (state ch')"
  using assms(1) sign_state_frame [OF assms(2)]
  unfolding consistent_state_def by simp

text \<open>
  The channel invariant of the specification: in every state a channel reaches, each
  participant's commitment opens to the balance and each proof verifies in the context
  of the current sequence number.
\<close>

lemma reaches_consistent:
  assumes "reaches sha sg ch0 ch"
    and "subgroup_params (params ch0)"
    and "consistent_state sha (params ch0) (channel_id ch0) (state ch0)"
  shows "params ch = params ch0 \<and> channel_id ch = channel_id ch0
         \<and> consistent_state sha (params ch0) (channel_id ch0) (state ch)"
  using assms
proof (induction rule: reaches.induct)
  case reaches_start
  then show ?case by simp
next
  case (reaches_payment ch payer amount tp ch' tp')
  then have i: "params ch = params ch0" "channel_id ch = channel_id ch0"
    "consistent_state sha (params ch0) (channel_id ch0) (state ch)" by simp_all
  from apply_payment_consistent [OF _ _ reaches_payment.hyps(2)] i reaches_payment.prems
    apply_payment_frame [OF reaches_payment.hyps(2)]
  show ?case by simp
next
  case (reaches_signature ch pid s ch')
  with sign_state_frame [OF reaches_signature.hyps(2)]
    sign_state_consistent [OF _ reaches_signature.hyps(2)]
  show ?case by simp
qed

subsection \<open>The settlement validator\<close>

lemma map_of_dict_set:
  "map_of (dict_set d k v) k' = (if k' = k then Some v else map_of d k')"
  by (induction d) auto

lemma deserialize_serialize_proof:
  "deserialize_proof (map (\<lambda>(k, v). (k, PyStr v)) (serialize_proof pf)) = Inr pf"
  by (cases pf)
     (simp add: deserialize_proof_def serialize_proof_def dict_item_def int_of_hex_format_x)

lemma check_participant_ok:
  assumes "payload_get signatures_hex pid = PyStr (bytes_hex sig)"
    and "vk_verify sg vk digest sig = Inr True"
    and "payload_get openings_hex pid = PyStr (serialize_opening opn)"
    and "payload_get bals pid = PyInt bal"
    and "dict_item (rec_commitments r) pid = Inr c"
    and "verify P c bal opn = Inr True"
    and "payload_get proofs_hex pid
           = PyDict (map (\<lambda>(k, v). (k, PyStr v)) (serialize_proof pf))"
    and "verify_opening_proof sha P c pf (proof_context cid (rec_sequence r) pid) = Inr True"
  shows "check_participant sha sg P cid r digest signatures_hex openings_hex bals proofs_hex
           pid vk = Inr ()"
  using assms
  by (cases opn)
     (simp add: check_participant_def Let_def bytes_fromhex_bytes_hex serialize_opening_def
        int_of_hex_format_x deserialize_serialize_proof)

lemma cooperative_close_ok:
  assumes sc: "\<And>sk m. vk_verify sg (sk_verify_key sg sk) m (sk_sign sg sk m) = Inr True"
    and rc: "require_record L (channel_id ch) = Inr r"
    and nc: "\<not> closed r"
    and rs: "rec_sequence r = sequence (state ch)"
    and rcm: "rec_commitments r = commitments (state ch)"
    and vk: "verify_keys r = [(''alice'', sk_verify_key sg ska), (''bob'', sk_verify_key sg skb)]"
    and cs: "consistent_state sha (ledger_params L) (channel_id ch) (state ch)"
    and sigs: "signatures (state ch) = [(''alice'', sk_sign sg ska (state_digest sha ch)),
                                        (''bob'', sk_sign sg skb (state_digest sha ch))]"
  shows "cooperative_close sha sg L (closing_payload ch) =
           (Inr [(''channel_id'', PyStr (channel_id ch)),
                 (''sequence'', PyInt (sequence (state ch))),
                 (''settled_balances'',
                    PyDict (map (\<lambda>(pid, b). (pid, PyInt b)) (balances (state ch)))),
                 (''verified'', PyBool True)],
            L\<lparr>records := dict_set (records L) (channel_id ch) (r\<lparr>closed := True\<rparr>)\<rparr>)"
proof -
  from cs obtain a b ca cb oa ob pa pb where
    st: "balances (state ch) = [(''alice'', a), (''bob'', b)]"
        "commitments (state ch) = [(''alice'', ca), (''bob'', cb)]"
        "openings (state ch) = [(''alice'', oa), (''bob'', ob)]"
        "proofs (state ch) = [(''alice'', pa), (''bob'', pb)]"
    and v: "verify (ledger_params L) ca a oa = Inr True"
        "verify (ledger_params L) cb b ob = Inr True"
        "verify_opening_proof sha (ledger_params L) ca pa
           (proof_context (channel_id ch) (sequence (state ch)) ''alice'') = Inr True"
        "verify_opening_proof sha (ledger_params L) cb pb
           (proof_context (channel_id ch) (sequence (state ch)) ''bob'') = Inr True"
    unfolding consistent_state_def by blast
  let ?digest = "compute_state_digest sha (channel_id ch) (rec_sequence r) (rec_commitments r)"
  have dg: "compute_state_digest sha (channel_id ch) (sequence (state ch))
              [(''alice'', ca), (''bob'', cb)] = state_digest sha ch"
    by (simp add: state_digest_def st)
  let ?sigs = "map (\<lambda>(pid, sig). (pid, PyStr (bytes_hex sig))) (signatures (state ch))"
  let ?ops = "map (\<lambda>(pid, opn). (pid, PyStr (serialize_opening opn))) (openings (state ch))"
  let ?bals = "map (\<lambda>(pid, b). (pid, PyInt b)) (balances (state ch))"
  let ?prs = "map (\<lambda>(pid, prf).
                 (pid, PyDict (map (\<lambda>(k, v). (k, PyStr v)) (serialize_proof prf))))
               (proofs (state ch))"
  let ?cms = "map (\<lambda>(pid, c). (pid, PyStr (serialize_commitment c))) (commitments (state ch))"
  have cc: "check_commitments (rec_commitments r) ?cms = Inr ()"
    by (simp add: rcm st payload_get_def)
  have pa: "check_participant sha sg (ledger_params L) (channel_id ch) r ?digest
              ?sigs ?ops ?bals ?prs ''alice'' (sk_verify_key sg ska) = Inr ()"
    by (rule check_participant_ok [where sig = "sk_sign sg ska (state_digest sha ch)"
          and opn = oa and bal = a and c = ca and pf = pa])
       (simp_all add: st sigs payload_get_def dg sc rcm dict_item_def rs v)
  have pb: "check_participant sha sg (ledger_params L) (channel_id ch) r ?digest
              ?sigs ?ops ?bals ?prs ''bob'' (sk_verify_key sg skb) = Inr ()"
    by (rule check_participant_ok [where sig = "sk_sign sg skb (state_digest sha ch)"
          and opn = ob and bal = b and c = cb and pf = pb])
       (simp_all add: st sigs payload_get_def dg sc rcm dict_item_def rs v)
  have cp: "check_participants sha sg (ledger_params L) (channel_id ch) r ?digest
              ?sigs ?ops ?bals ?prs (verify_keys r) = Inr ()"
    by (simp add: vk pa pb)
  have "cooperative_close_checks sha sg L (closing_payload ch)
          = Inr (channel_id ch, r, ?bals)"
    using rc nc rs cc cp
    by (simp add: cooperative_close_checks_def closing_payload_def payload_get_def Let_def)
  then show ?thesis
    by (simp add: cooperative_close_def rs)
qed

lemma cooperative_close_closed:
  assumes "payload_get payload ''channel_id'' = PyStr cid"
    and "require_record L cid = Inr r" and "closed r"
  shows "cooperative_close sha sg L payload = (Inl InvalidSettlementError, L)"
  using assms by (simp add: cooperative_close_def cooperative_close_checks_def)

lemma Channel_open_generated_keys:
  assumes "Channel_open sha dA dB pa ca None uuid gen tp = Inr (ch0, tp1)"
  shows "participants ch0 =
           [(''alice'', \<lparr>participant_id = ''alice'', signing_key = fst gen\<rparr>),
            (''bob'', \<lparr>participant_id = ''bob'', signing_key = snd gen\<rparr>)]"
    and "channel_id ch0 = (case ca of Some c \<Rightarrow> if c = [] then uuid else c | None \<Rightarrow> uuid)"
  using assms
  by (auto simp: Channel_open_def Let_def ebind_eq_Inr
      simp del: open_loop.simps split: if_splits)

lemma state_digest_cong:
  assumes "channel_id ch' = channel_id ch" "sequence (state ch') = sequence (state ch)"
    "commitments (state ch') = commitments (state ch)"
  shows "state_digest sha ch' = state_digest sha ch"
  using assms by (simp add: state_digest_def)

text \<open>
  C4 (settlement determinism, non-idempotent close). For a channel opened with deposits
  (200, 50) and registered with the validator, after one payment of 25 from alice, the
  validator's update and both signatures, \<^verbatim>\<open>cooperative_close\<close> on the closing payload
  returns the settled balances alice 175 and bob 75, sequence 1 and verified true,
  whatever the hash, the keys and the random draws are (twelve accepted draws are
  needed); a second close of the same payload raises InvalidSettlementError.
\<close>

theorem settlement_deterministic:
  assumes sp: "subgroup_params P"
    and sc: "\<And>sk m. vk_verify sg (sk_verify_key sg sk) m (sk_sign sg sk m) = Inr True"
    and tp: "12 \<le> usable tp"
  shows "settlement_run sha sg P ca uuid gen tp =
           Inr (Inr [(''channel_id'',
                        PyStr (case ca of Some c \<Rightarrow> if c = [] then uuid else c | None \<Rightarrow> uuid)),
                     (''sequence'', PyInt 1),
                     (''settled_balances'', PyDict [(''alice'', PyInt 175), (''bob'', PyInt 75)]),
                     (''verified'', PyBool True)],
                Inl InvalidSettlementError)"
proof -
  let ?cid = "case ca of Some c \<Rightarrow> if c = [] then uuid else c | None \<Rightarrow> uuid"
  from tp have "6 \<le> usable tp" by simp
  from Channel_open_total [OF sp _ _ this, of 200 50 sha ca None uuid gen]
  obtain ch0 tp1 where
    o: "Channel_open sha 200 50 (Some P) ca None uuid gen tp = Inr (ch0, tp1)"
    and u1: "usable tp1 + 6 = usable tp" by auto
  note st0 = opened_standard [OF o]
  note k0 = Channel_open_generated_keys [OF o]
  note f0 = Channel_open_fields [OF o]
  have sp0: "subgroup_params (params ch0)" using sp st0(3) by simp
  have cs0: "consistent_state sha (params ch0) (channel_id ch0) (state ch0)"
    using Channel_open_consistent [OF sp o] st0(3) by simp
  \<comment> \<open>the payment\<close>
  have "dict_item (balances (state ch0)) ''alice'' = Inr 200"
    by (simp add: st0(2) dict_item_def)
  with apply_payment_std [OF st0(1) st0(2) sp0, of "''alice''" sha 25 tp1] u1 tp
  obtain ch1 tp2 where ap: "apply_payment sha ch0 ''alice'' 25 tp1 = Inr (ch1, tp2)"
    by auto
  note f1 = apply_payment_frame [OF ap]
  from apply_payment_balances [OF ap st0(2)]
  have b1: "balances (state ch1) = [(''alice'', 175), (''bob'', 75)]" by auto
  have q1: "sequence (state ch1) = 1" using f1 f0 by simp
  have g1: "signatures (state ch1) = []" using apply_payment_signatures [OF ap] by simp
  have cs1: "consistent_state sha P ?cid (state ch1)"
    using apply_payment_consistent [OF sp0 cs0 ap] f1 st0(3) k0(2) by simp
  \<comment> \<open>the validator\<close>
  let ?L0 = "\<lparr>ledger_params = P, records = []\<rparr>"
  have i: "SimulatedLedger_init sha (Some P) = Inr ?L0"
    by (simp add: SimulatedLedger_init_def)
  let ?vks = "[(''alice'', sk_verify_key sg (fst gen)), (''bob'', sk_verify_key sg (snd gen))]"
  let ?r0 = "\<lparr>rec_channel_id = ?cid, rec_sequence = 0,
              rec_commitments = commitments (state ch0), verify_keys = ?vks, closed = False\<rparr>"
  let ?L1 = "\<lparr>ledger_params = P, records = [(?cid, ?r0)]\<rparr>"
  have rg: "register_channel sg ?L0 ch0 = ?L1"
    by (simp add: register_channel_def k0 f0)
  let ?r1 = "?r0\<lparr>rec_sequence := 1, rec_commitments := commitments (state ch1)\<rparr>"
  let ?L2 = "\<lparr>ledger_params = P, records = [(?cid, ?r1)]\<rparr>"
  have up: "update_state ?L1 ch1 = Inr ?L2"
    by (simp add: update_state_def require_record_def f1 f0 k0(2))
  \<comment> \<open>the signatures\<close>
  let ?d = "state_digest sha ch1"
  let ?sa = "sk_sign sg (fst gen) ?d" and ?sb = "sk_sign sg (snd gen) ?d"
  let ?ch2 = "ch1\<lparr>state := (state ch1)\<lparr>signatures := [(''alice'', ?sa)]\<rparr>\<rparr>"
  let ?ch3 = "ch1\<lparr>state := (state ch1)\<lparr>signatures := [(''alice'', ?sa), (''bob'', ?sb)]\<rparr>\<rparr>"
  have s1: "sign_state sha sg ch1 ''alice'' = Inr (?sa, ?ch2)"
    by (simp add: sign_state_def f1 k0(1) g1 Let_def)
  have d2: "state_digest sha ?ch2 = ?d" by (simp add: state_digest_def)
  have s2: "sign_state sha sg ?ch2 ''bob'' = Inr (?sb, ?ch3)"
    by (simp add: sign_state_def f1 k0(1) d2 Let_def)
  have d3: "state_digest sha ?ch3 = ?d" by (simp add: state_digest_def)
  \<comment> \<open>the two closes\<close>
  let ?L3 = "?L2\<lparr>records := dict_set (records ?L2) (channel_id ?ch3) (?r1\<lparr>closed := True\<rparr>)\<rparr>"
  have c3: "channel_id ?ch3 = ?cid" using f1 k0(2) by simp
  have "cooperative_close sha sg ?L2 (closing_payload ?ch3) =
           (Inr [(''channel_id'', PyStr (channel_id ?ch3)),
                 (''sequence'', PyInt (sequence (state ?ch3))),
                 (''settled_balances'',
                    PyDict (map (\<lambda>(pid, b). (pid, PyInt b)) (balances (state ?ch3)))),
                 (''verified'', PyBool True)], ?L3)"
  proof (rule cooperative_close_ok [OF sc, where ska = "fst gen" and skb = "snd gen"])
    show "require_record ?L2 (channel_id ?ch3) = Inr ?r1"
      by (simp add: require_record_def c3)
    show "\<not> closed ?r1" by simp
    show "rec_sequence ?r1 = sequence (state ?ch3)" by (simp add: q1)
    show "rec_commitments ?r1 = commitments (state ?ch3)" by simp
    show "verify_keys ?r1 = ?vks" by simp
    show "consistent_state sha (ledger_params ?L2) (channel_id ?ch3) (state ?ch3)"
      using cs1 c3 by (simp add: consistent_state_def)
    show "signatures (state ?ch3) = [(''alice'', sk_sign sg (fst gen) (state_digest sha ?ch3)),
                                     (''bob'', sk_sign sg (snd gen) (state_digest sha ?ch3))]"
      by (simp only: d3) simp
  qed
  then have cl1: "cooperative_close sha sg ?L2 (closing_payload ?ch3) =
           (Inr [(''channel_id'', PyStr ?cid), (''sequence'', PyInt 1),
                 (''settled_balances'', PyDict [(''alice'', PyInt 175), (''bob'', PyInt 75)]),
                 (''verified'', PyBool True)], ?L3)"
    by (simp only: c3) (simp add: q1 b1)
  have cl2: "cooperative_close sha sg ?L3 (closing_payload ?ch3) = (Inl InvalidSettlementError, ?L3)"
  proof (rule cooperative_close_closed [where cid = ?cid and r = "?r1\<lparr>closed := True\<rparr>"])
    show "payload_get (closing_payload ?ch3) ''channel_id'' = PyStr ?cid"
      using c3 by (simp add: closing_payload_def payload_get_def Let_def)
    show "require_record ?L3 ?cid = Inr (?r1\<lparr>closed := True\<rparr>)"
      by (simp add: require_record_def c3)
    show "closed (?r1\<lparr>closed := True\<rparr>)" by simp
  qed
  show ?thesis
    unfolding settlement_run_def
    by (simp only: o i rg ap up s1 s2 cl1 cl2 ebind_Inr Let_def prod.case sum.case)
qed

lemma demo_sig_correct:
  "vk_verify demo_sig (sk_verify_key demo_sig sk) m (sk_sign demo_sig sk m) = Inr True"
  by (simp add: demo_sig_def)

theorem settlement_deterministic_witness:
  "subgroup_params demo_params \<and>
   (\<forall>sk m. vk_verify demo_sig (sk_verify_key demo_sig sk) m (sk_sign demo_sig sk m) = Inr True) \<and>
   12 \<le> usable demo_tape \<and>
   settlement_run demo_sha demo_sig demo_params None ''c1'' (''ka'', ''kb'') demo_tape =
     Inr (Inr [(''channel_id'', PyStr ''c1''),
               (''sequence'', PyInt 1),
               (''settled_balances'', PyDict [(''alice'', PyInt 175), (''bob'', PyInt 75)]),
               (''verified'', PyBool True)],
          Inl InvalidSettlementError)"
proof -
  have u: "12 \<le> usable demo_tape" by (simp add: usable_demo_tape)
  from settlement_deterministic [OF demo_subgroup demo_sig_correct u,
      of demo_sha None "''c1''" "(''ka'', ''kb'')"]
  show ?thesis using demo_subgroup demo_sig_correct u by simp
qed

text \<open>
  C6 (exact-sequence settlement). When the ledger holds a record for the payload's
  channel and the payload's sequence is not an integer equal to the record's sequence,
  \<^verbatim>\<open>cooperative_close\<close> raises InvalidSettlementError and the ledger, with the record
  not closed by the call, is as before.
\<close>

theorem exact_sequence_settlement:
  assumes "payload_get payload ''channel_id'' = PyStr cid"
    and "require_record L cid = Inr r"
    and "py_int_of (payload_get payload ''sequence'') \<noteq> Some (rec_sequence r)"
  shows "cooperative_close sha sg L payload = (Inl InvalidSettlementError, L)"
  using assms by (simp add: cooperative_close_def cooperative_close_checks_def)

theorem exact_sequence_settlement_witness:
  "payload_get [(''channel_id'', PyStr ''c1''), (''sequence'', PyInt 0)] ''channel_id''
     = PyStr ''c1'' \<and>
   require_record stale_ledger ''c1'' = Inr (snd (hd (records stale_ledger))) \<and>
   rec_sequence (snd (hd (records stale_ledger))) = 1 \<and>
   \<not> closed (snd (hd (records stale_ledger))) \<and>
   cooperative_close demo_sha demo_sig stale_ledger
     [(''channel_id'', PyStr ''c1''), (''sequence'', PyInt 0)]
     = (Inl InvalidSettlementError, stale_ledger)"
proof -
  have 1: "payload_get [(''channel_id'', PyStr ''c1''), (''sequence'', PyInt 0)] ''channel_id''
     = PyStr ''c1''" by (simp add: payload_get_def)
  have 2: "require_record stale_ledger ''c1'' = Inr (snd (hd (records stale_ledger)))"
    by (simp add: require_record_def stale_ledger_def)
  have 3: "py_int_of (payload_get [(''channel_id'', PyStr ''c1''), (''sequence'', PyInt 0)]
             ''sequence'') \<noteq> Some (rec_sequence (snd (hd (records stale_ledger))))"
    by (simp add: payload_get_def stale_ledger_def)
  from exact_sequence_settlement [OF 1 2 3, of demo_sha demo_sig] 1 2
  show ?thesis by (simp add: stale_ledger_def)
qed

subsection \<open>Inputs that the commitment scheme accepts\<close>

lemma only_arithmetic_Inr: "only_arithmetic (Inr x)"
  by (simp add: only_arithmetic_def)

lemma only_arithmetic_ebind:
  assumes "only_arithmetic m" and "\<And>x. only_arithmetic (f x)"
  shows "only_arithmetic (ebind m f)"
  using assms by (cases m) (simp_all add: only_arithmetic_def)

lemma only_arithmetic_prod:
  assumes "\<And>a b. only_arithmetic (f a b)"
  shows "only_arithmetic (case x of (a, b) \<Rightarrow> f a b)"
  using assms by (cases x) simp

lemma only_arithmetic_py_mod: "only_arithmetic (py_mod a b)"
  by (simp add: only_arithmetic_def py_mod_def)

lemma only_arithmetic_pow': "only_arithmetic (pow' b e m)"
  by (simp add: only_arithmetic_def pow'_def py_pow_def split: option.splits)

lemma only_arithmetic_int_to_bytes: "only_arithmetic (int_to_bytes v n)"
  by (simp add: only_arithmetic_def int_to_bytes_def to_bytes_big_def)

lemma only_arithmetic_random_scalar: "only_arithmetic (random_scalar P tp)"
  by (induction tp) (simp_all add: only_arithmetic_def)

lemmas only_arithmetic_intros =
  only_arithmetic_ebind only_arithmetic_prod only_arithmetic_Inr only_arithmetic_py_mod
  only_arithmetic_pow' only_arithmetic_int_to_bytes only_arithmetic_random_scalar

lemma only_arithmetic_compute_challenge: "only_arithmetic (compute_challenge sha P c tv ctx)"
  unfolding compute_challenge_def Let_def
  by (intro only_arithmetic_intros) (simp add: only_arithmetic_def)

lemma only_arithmetic_commit: "only_arithmetic (commit P m rnd tp)"
  unfolding commit_def
  by (cases rnd) (simp_all only: option.case, (intro only_arithmetic_intros)+)

lemma only_arithmetic_verify: "only_arithmetic (verify P c m opn)"
  unfolding verify_def by (intro only_arithmetic_intros)

lemma only_arithmetic_add_commitments_from: "only_arithmetic (add_commitments_from P acc cs)"
  by (induction cs arbitrary: acc) (simp_all add: only_arithmetic_intros)

lemma only_arithmetic_add_commitments: "only_arithmetic (add_commitments P cs)"
  unfolding add_commitments_def
  by (intro only_arithmetic_intros only_arithmetic_add_commitments_from)

lemma only_arithmetic_add_messages: "only_arithmetic (add_messages P ms)"
proof -
  have "only_arithmetic (add_messages_from P tot ms)" for tot
    by (induction ms arbitrary: tot) (simp_all add: only_arithmetic_intros)
  then show ?thesis by (simp add: add_messages_def)
qed

lemma only_arithmetic_add_openings: "only_arithmetic (add_openings P os)"
proof -
  have "only_arithmetic (add_openings_from P tot os)" for tot
    by (induction os arbitrary: tot) (simp_all add: only_arithmetic_intros)
  then show ?thesis
    unfolding add_openings_def by (intro only_arithmetic_intros)
qed

lemma only_arithmetic_negate_commitment: "only_arithmetic (negate_commitment P c)"
  unfolding negate_commitment_def by (intro only_arithmetic_intros)

lemma only_arithmetic_commitment_difference: "only_arithmetic (commitment_difference P c d)"
  unfolding commitment_difference_def
  by (intro only_arithmetic_intros only_arithmetic_negate_commitment
        only_arithmetic_add_commitments)

lemma only_arithmetic_prove_opening: "only_arithmetic (prove_opening sha P m opn c ctx tp)"
  unfolding prove_opening_def
  by (intro only_arithmetic_intros only_arithmetic_compute_challenge)

lemma only_arithmetic_verify_opening_proof:
  "only_arithmetic (verify_opening_proof sha P c pf ctx)"
  unfolding verify_opening_proof_def
  by (intro only_arithmetic_intros only_arithmetic_compute_challenge)

lemma add_commitments_total:
  assumes "p P \<noteq> 0"
  shows "\<exists>y. add_commitments P cs = Inr y"
proof -
  have "\<exists>y. add_commitments_from P acc cs = Inr y" for acc
    using assms by (induction cs arbitrary: acc) simp_all
  then obtain y where "add_commitments_from P 1 cs = Inr y" by blast
  then show ?thesis by (simp add: add_commitments_def)
qed

lemma add_messages_total:
  assumes "q P \<noteq> 0"
  shows "\<exists>y. add_messages P ms = Inr y"
proof -
  have "\<exists>y. add_messages_from P tot ms = Inr y" for tot
    using assms by (induction ms arbitrary: tot) simp_all
  then show ?thesis by (simp add: add_messages_def)
qed

lemma add_openings_total:
  assumes "q P \<noteq> 0"
  shows "\<exists>y. add_openings P os = Inr y"
proof -
  have "\<exists>y. add_openings_from P tot os = Inr y" for tot
    using assms by (induction os arbitrary: tot) simp_all
  then obtain y where "add_openings_from P 0 os = Inr y" by blast
  then show ?thesis by (simp add: add_openings_def)
qed

lemma negate_commitment_total:
  assumes "1 < p P"
  shows "\<exists>y. negate_commitment P c = Inr y"
  using assms by (simp add: negate_commitment_def pow'_def py_pow_def)

lemma commitment_difference_total:
  assumes "1 < p P"
  shows "\<exists>y. commitment_difference P c d = Inr y"
proof -
  from negate_commitment_total [OF assms] obtain n where "negate_commitment P d = Inr n"
    by blast
  moreover have "p P \<noteq> 0" using assms by simp
  ultimately show ?thesis
    using add_commitments_total [of P "[c, n]"] by (simp add: commitment_difference_def)
qed

text \<open>
  C9 as stated fails: no operation validates its inputs. A negative message, then a
  commitment value, a message and a randomness all out of range, are accepted and
  reduced, and a zero modulus surfaces as Python's ValueError from \<^verbatim>\<open>pow\<close>.
\<close>

theorem commit_unvalidated_counterexample:
  "commit demo_params (- 5) (Some 3) [] = Inr ((Commitment 3, CommitmentOpening 3), []) \<and>
   verify demo_params (Commitment 26) 17 (CommitmentOpening 14) = Inr True \<and>
   commit \<lparr>p = 0, q = 11, g = 2, h = 3\<rparr> 1 (Some 1) [] = Inl ValueError"
  by (simp add: commit_def verify_def demo_params_def pow'_def py_pow_def py_mod_def)

text \<open>
  C9 (amended). No operation of the commitment scheme validates its inputs, and none
  fails with an InvalidParameter condition. Whatever the integer parameters and the
  integer inputs, each of \<^verbatim>\<open>commit\<close> (with the randomness given or omitted),
  \<^verbatim>\<open>verify\<close>, \<^verbatim>\<open>add_commitments\<close>, \<^verbatim>\<open>add_messages\<close>, \<^verbatim>\<open>add_openings\<close>,
  \<^verbatim>\<open>negate_commitment\<close>, \<^verbatim>\<open>commitment_difference\<close>, \<^verbatim>\<open>prove_opening\<close> and
  \<^verbatim>\<open>verify_opening_proof\<close> either returns a result or fails with an exception that
  Python's arithmetic raises, ValueError, ZeroDivisionError or OverflowError (or the
  loop of \<^verbatim>\<open>random_scalar\<close> has not returned when the draws end). Over parameters
  that satisfy the invariant of the group parameters none of them fails: every integer
  message, randomness, commitment value and proof field is accepted and a result is
  returned, by \<^verbatim>\<open>commit\<close> with the randomness omitted as soon as the draws contain a
  non-zero value and by \<^verbatim>\<open>prove_opening\<close> as soon as they contain two;
  \<^verbatim>\<open>commit\<close> returns the same commitment for a message and for its residue modulo
  \<open>q\<close>, and \<^verbatim>\<open>verify\<close> the same answer for a commitment value and a message and
  for their residues modulo \<open>p\<close> and \<open>q\<close>.
\<close>

theorem pedersen_operations_unvalidated:
  "only_arithmetic (commit P m rnd tp)
   \<and> only_arithmetic (verify P c m opn)
   \<and> only_arithmetic (add_commitments P cs)
   \<and> only_arithmetic (add_messages P ms)
   \<and> only_arithmetic (add_openings P os)
   \<and> only_arithmetic (negate_commitment P c)
   \<and> only_arithmetic (commitment_difference P c d)
   \<and> only_arithmetic (prove_opening sha P m opn c ctx tp)
   \<and> only_arithmetic (verify_opening_proof sha P c pf ctx)
   \<and> (subgroup_params P \<longrightarrow>
        (\<exists>c'. commit P m (Some r) tp = Inr ((c', CommitmentOpening r), tp)
            \<and> commit P (m mod q P) (Some r) tp = Inr ((c', CommitmentOpening r), tp))
      \<and> (0 < usable tp \<longrightarrow> (\<exists>y. commit P m None tp = Inr y))
      \<and> (\<exists>b. verify P c m opn = Inr b
            \<and> verify P (Commitment (commitment_value c mod p P)) (m mod q P) opn = Inr b)
      \<and> (\<exists>y. add_commitments P cs = Inr y)
      \<and> (\<exists>y. add_messages P ms = Inr y)
      \<and> (\<exists>y. add_openings P os = Inr y)
      \<and> (\<exists>y. negate_commitment P c = Inr y)
      \<and> (\<exists>y. commitment_difference P c d = Inr y)
      \<and> (2 \<le> usable tp \<longrightarrow> (\<exists>y. prove_opening sha P m opn c ctx tp = Inr y))
      \<and> (\<exists>b. verify_opening_proof sha P c pf ctx = Inr b))"
proof -
  have total: "(\<exists>c'. commit P m (Some r) tp = Inr ((c', CommitmentOpening r), tp)
            \<and> commit P (m mod q P) (Some r) tp = Inr ((c', CommitmentOpening r), tp))
      \<and> (0 < usable tp \<longrightarrow> (\<exists>y. commit P m None tp = Inr y))
      \<and> (\<exists>b. verify P c m opn = Inr b
            \<and> verify P (Commitment (commitment_value c mod p P)) (m mod q P) opn = Inr b)
      \<and> (\<exists>y. add_commitments P cs = Inr y)
      \<and> (\<exists>y. add_messages P ms = Inr y)
      \<and> (\<exists>y. add_openings P os = Inr y)
      \<and> (\<exists>y. negate_commitment P c = Inr y)
      \<and> (\<exists>y. commitment_difference P c d = Inr y)
      \<and> (2 \<le> usable tp \<longrightarrow> (\<exists>y. prove_opening sha P m opn c ctx tp = Inr y))
      \<and> (\<exists>b. verify_opening_proof sha P c pf ctx = Inr b)"
    if sp: "subgroup_params P"
  proof -
    have pq: "1 < p P" "p P \<noteq> 0" "q P \<noteq> 0" using sp by (auto simp: subgroup_params_def)
    have 1: "\<exists>c'. commit P m (Some r) tp = Inr ((c', CommitmentOpening r), tp)
            \<and> commit P (m mod q P) (Some r) tp = Inr ((c', CommitmentOpening r), tp)"
      by (simp add: commit_Some [OF sp])
    have 2: "0 < usable tp \<longrightarrow> (\<exists>y. commit P m None tp = Inr y)"
      using commit_None_total [OF sp, of tp m] by blast
    have 3: "\<exists>b. verify P c m opn = Inr b
            \<and> verify P (Commitment (commitment_value c mod p P)) (m mod q P) opn = Inr b"
      by (simp add: verify_eq [OF sp])
    have 4: "2 \<le> usable tp \<longrightarrow> (\<exists>y. prove_opening sha P m opn c ctx tp = Inr y)"
      using prove_opening_total [OF sp, of tp sha m opn c ctx] by blast
    from 1 2 3 4 add_commitments_total [OF pq(2), of cs] add_messages_total [OF pq(3), of ms]
      add_openings_total [OF pq(3), of os] negate_commitment_total [OF pq(1), of c]
      commitment_difference_total [OF pq(1), of c d]
      verify_opening_proof_total [OF sp, of sha c pf ctx]
    show ?thesis by blast
  qed
  from total only_arithmetic_commit [of P m rnd tp] only_arithmetic_verify [of P c m opn]
    only_arithmetic_add_commitments [of P cs] only_arithmetic_add_messages [of P ms]
    only_arithmetic_add_openings [of P os] only_arithmetic_negate_commitment [of P c]
    only_arithmetic_commitment_difference [of P c d]
    only_arithmetic_prove_opening [of sha P m opn c ctx tp]
    only_arithmetic_verify_opening_proof [of sha P c pf ctx]
  show ?thesis by blast
qed

theorem pedersen_operations_unvalidated_witness:
  "subgroup_params demo_params \<and> 0 < usable demo_tape \<and> 2 \<le> usable demo_tape
   \<and> (\<exists>c'. commit demo_params (- 5) (Some 14) demo_tape
               = Inr ((c', CommitmentOpening 14), demo_tape)
           \<and> commit demo_params (- 5 mod q demo_params) (Some 14) demo_tape
               = Inr ((c', CommitmentOpening 14), demo_tape))
   \<and> (\<exists>y. commit demo_params (- 5) None demo_tape = Inr y)
   \<and> (\<exists>b. verify demo_params (Commitment 26) (- 5) (CommitmentOpening 14) = Inr b
           \<and> verify demo_params (Commitment (commitment_value (Commitment 26) mod p demo_params))
                (- 5 mod q demo_params) (CommitmentOpening 14) = Inr b)
   \<and> (\<exists>y. add_commitments demo_params [Commitment 26, Commitment (- 4)] = Inr y)
   \<and> (\<exists>y. add_messages demo_params [17, - 5] = Inr y)
   \<and> (\<exists>y. add_openings demo_params [CommitmentOpening 14, CommitmentOpening (- 1)] = Inr y)
   \<and> (\<exists>y. negate_commitment demo_params (Commitment 26) = Inr y)
   \<and> (\<exists>y. commitment_difference demo_params (Commitment 26) (Commitment (- 4)) = Inr y)
   \<and> (\<exists>y. prove_opening demo_sha demo_params (- 5) (CommitmentOpening 14) (Commitment 26)
              ''x'' demo_tape = Inr y)
   \<and> (\<exists>b. verify_opening_proof demo_sha demo_params (Commitment 26)
              \<lparr>t = - 3, response_m = 40, response_r = - 2\<rparr> ''x'' = Inr b)
   \<and> commit \<lparr>p = 0, q = 0, g = 2, h = 3\<rparr> 1 None [] = Inl ValueError
   \<and> verify \<lparr>p = 0, q = 0, g = 2, h = 3\<rparr> (Commitment 1) 1 (CommitmentOpening 1)
        = Inl ZeroDivisionError
   \<and> verify_opening_proof demo_sha \<lparr>p = - 7, q = 3, g = 2, h = 3\<rparr> (Commitment 1)
        \<lparr>t = 1, response_m = 1, response_r = 1\<rparr> ''x'' = Inl OverflowError
   \<and> ValueError \<in> {ValueError, ZeroDivisionError, OverflowError, RngExhausted}
   \<and> ZeroDivisionError \<in> {ValueError, ZeroDivisionError, OverflowError, RngExhausted}
   \<and> OverflowError \<in> {ValueError, ZeroDivisionError, OverflowError, RngExhausted}"
proof -
  have u: "0 < usable demo_tape" "2 \<le> usable demo_tape"
    by (simp_all add: usable_demo_tape)
  have e1: "commit \<lparr>p = 0, q = 0, g = 2, h = 3\<rparr> 1 None [] = Inl ValueError"
    by (simp add: commit_def)
  have e2: "verify \<lparr>p = 0, q = 0, g = 2, h = 3\<rparr> (Commitment 1) 1 (CommitmentOpening 1)
        = Inl ZeroDivisionError"
    by (simp add: verify_def py_mod_def)
  have e3: "verify_opening_proof demo_sha \<lparr>p = - 7, q = 3, g = 2, h = 3\<rparr> (Commitment 1)
        \<lparr>t = 1, response_m = 1, response_r = 1\<rparr> ''x'' = Inl OverflowError"
    by (simp add: verify_opening_proof_def compute_challenge_def Let_def py_mod_def
          int_to_bytes_def to_bytes_big_def)
  from pedersen_operations_unvalidated
         [where P = demo_params and m = "- 5" and r = 14 and tp = demo_tape
            and c = "Commitment 26" and opn = "CommitmentOpening 14"
            and cs = "[Commitment 26, Commitment (- 4)]" and ms = "[17, - 5]"
            and os = "[CommitmentOpening 14, CommitmentOpening (- 1)]"
            and d = "Commitment (- 4)" and sha = demo_sha and ctx = "''x''"
            and pf = "\<lparr>t = - 3, response_m = 40, response_r = - 2\<rparr>"]
       demo_subgroup u
  have good: "(\<exists>c'. commit demo_params (- 5) (Some 14) demo_tape
               = Inr ((c', CommitmentOpening 14), demo_tape)
           \<and> commit demo_params (- 5 mod q demo_params) (Some 14) demo_tape
               = Inr ((c', CommitmentOpening 14), demo_tape))
   \<and> (\<exists>y. commit demo_params (- 5) None demo_tape = Inr y)
   \<and> (\<exists>b. verify demo_params (Commitment 26) (- 5) (CommitmentOpening 14) = Inr b
           \<and> verify demo_params (Commitment (commitment_value (Commitment 26) mod p demo_params))
                (- 5 mod q demo_params) (CommitmentOpening 14) = Inr b)
   \<and> (\<exists>y. add_commitments demo_params [Commitment 26, Commitment (- 4)] = Inr y)
   \<and> (\<exists>y. add_messages demo_params [17, - 5] = Inr y)
   \<and> (\<exists>y. add_openings demo_params [CommitmentOpening 14, CommitmentOpening (- 1)] = Inr y)
   \<and> (\<exists>y. negate_commitment demo_params (Commitment 26) = Inr y)
   \<and> (\<exists>y. commitment_difference demo_params (Commitment 26) (Commitment (- 4)) = Inr y)
   \<and> (\<exists>y. prove_opening demo_sha demo_params (- 5) (CommitmentOpening 14) (Commitment 26)
              ''x'' demo_tape = Inr y)
   \<and> (\<exists>b. verify_opening_proof demo_sha demo_params (Commitment 26)
              \<lparr>t = - 3, response_m = 40, response_r = - 2\<rparr> ''x'' = Inr b)"
    by blast
  from pedersen_operations_unvalidated
         [where P = "\<lparr>p = 0, q = 0, g = 2, h = 3\<rparr>" and m = 1 and rnd = None and tp = "[]"
            and c = "Commitment 1" and opn = "CommitmentOpening 1"] e1 e2
  have bad: "ValueError \<in> {ValueError, ZeroDivisionError, OverflowError, RngExhausted}"
    "ZeroDivisionError \<in> {ValueError, ZeroDivisionError, OverflowError, RngExhausted}"
    unfolding only_arithmetic_def by blast+
  from pedersen_operations_unvalidated
         [where P = "\<lparr>p = - 7, q = 3, g = 2, h = 3\<rparr>" and c = "Commitment 1"
            and sha = demo_sha and ctx = "''x''"
            and pf = "\<lparr>t = 1, response_m = 1, response_r = 1\<rparr>"] e3
  have neg: "OverflowError \<in> {ValueError, ZeroDivisionError, OverflowError, RngExhausted}"
    unfolding only_arithmetic_def by blast
  from demo_subgroup u good e1 e2 e3 bad neg show ?thesis by blast
qed

subsection \<open>The default parameters\<close>

lemma hex_P_VALUE: "int_of_hex P_HEX = Inr P_VALUE"
  by (simp add: int_of_hex_def P_HEX_def hex_val_def is_space_def P_VALUE_def)

lemma bit_length_nat_eq: "2 ^ k \<le> n \<Longrightarrow> n < 2 ^ Suc k \<Longrightarrow> bit_length_nat n = Suc k"
proof (induction k arbitrary: n)
  case 0
  then have "n = 1" by simp
  then show ?case by (simp add: bit_length_nat.simps)
next
  case (Suc k)
  then have "2 ^ k \<le> n div 2" "n div 2 < 2 ^ Suc k" by simp_all
  then have "bit_length_nat (n div 2) = Suc k" by (rule Suc.IH)
  moreover from Suc.prems have "n \<noteq> 0" by auto
  ultimately show ?case by (subst bit_length_nat.simps) simp
qed

lemma P_VALUE_bits: "bit_length P_VALUE = 768"
proof -
  have "(2::int) ^ 767 \<le> P_VALUE" "P_VALUE < 2 ^ 768" by (simp_all add: P_VALUE_def)
  then have "(2::nat) ^ 767 \<le> nat \<bar>P_VALUE\<bar>" "nat \<bar>P_VALUE\<bar> < 2 ^ Suc 767"
    by (simp_all add: le_nat_iff nat_less_iff)
  then have "bit_length_nat (nat \<bar>P_VALUE\<bar>) = Suc 767" by (rule bit_length_nat_eq)
  then show ?thesis by (simp add: bit_length_def)
qed

lemma P_VALUE_odd: "P_VALUE = 2 * ((P_VALUE - 1) div 2) + 1"
  by (simp add: P_VALUE_def)

text \<open>
  C10 (group parameters). Whatever the hash, the parameters that
  \<^verbatim>\<open>default_parameters\<close> returns have the modulus \<open>P_VALUE\<close>, which has 768 bits and
  not 2048, with \<open>p = 2q + 1\<close>, \<open>g = 2\<close> and \<open>h\<close> the power of \<open>g\<close> to the hashed
  scalar.
\<close>

theorem default_parameters_modulus:
  assumes "default_parameters sha = Inr P"
  shows "p P = P_VALUE \<and> bit_length (p P) = 768 \<and> bit_length (p P) \<noteq> 2048
         \<and> p P = 2 * q P + 1 \<and> g P = 2
         \<and> (\<exists>s. hash_to_scalar sha ''pedersen-h-generator'' (q P) = Inr s
                \<and> pow' (g P) s (p P) = Inr (h P))"
proof -
  from assms obtain s hh where
    s: "hash_to_scalar sha ''pedersen-h-generator'' ((P_VALUE - 1) div 2) = Inr s"
    and hp: "pow' 2 s P_VALUE = Inr hh"
    and P: "P = \<lparr>p = P_VALUE, q = (P_VALUE - 1) div 2, g = 2, h = hh\<rparr>"
    by (auto simp: default_parameters_def hex_P_VALUE Let_def ebind_eq_Inr)
  from P_VALUE_odd s hp show ?thesis
    unfolding P by (simp add: P_VALUE_bits)
qed

lemma demo_hash_to_scalar:
  "hash_to_scalar demo_sha ''pedersen-h-generator'' ((P_VALUE - 1) div 2) = Inr 97"
proof -
  have "from_bytes_big ''a'' = 97" by (simp add: from_bytes_big_def)
  moreover have "(97::int) mod ((P_VALUE - 1) div 2) = 97" by (simp add: P_VALUE_def)
  moreover have "(P_VALUE - 1) div 2 \<noteq> 0" by (simp add: P_VALUE_def)
  ultimately show ?thesis
    by (simp add: hash_to_scalar_def hash_to_scalar_from.simps [of _ _ _ 0] to_bytes_big_def
        demo_sha_def py_mod_def)
qed

theorem default_parameters_modulus_witness:
  "default_parameters demo_sha
     = Inr \<lparr>p = P_VALUE, q = (P_VALUE - 1) div 2, g = 2, h = 2 ^ 97 mod P_VALUE\<rparr> \<and>
   bit_length (p \<lparr>p = P_VALUE, q = (P_VALUE - 1) div 2, g = 2, h = 2 ^ 97 mod P_VALUE\<rparr>) = 768"
proof -
  have "P_VALUE \<noteq> 0" by (simp add: P_VALUE_def)
  then have d: "default_parameters demo_sha
     = Inr \<lparr>p = P_VALUE, q = (P_VALUE - 1) div 2, g = 2, h = 2 ^ 97 mod P_VALUE\<rparr>"
    by (simp add: default_parameters_def hex_P_VALUE Let_def demo_hash_to_scalar
        pow'_def py_pow_def)
  from default_parameters_modulus [OF d] d show ?thesis by simp
qed

subsection \<open>Correctness and binding of a commitment\<close>

text \<open>
  Whatever the parameters, \<^verbatim>\<open>verify\<close> accepts a commitment that \<^verbatim>\<open>commit\<close> returned,
  for the message and the opening it was made with.
\<close>

lemma verify_accepts_commit:
  assumes "commit P m rnd tp = Inr ((c, opn), tp')"
  shows "verify P c m opn = Inr True"
  using assms
  by (auto simp: commit_def verify_def ebind_eq_Inr py_mod_def split: if_splits)

lemma gexp_zero: "1 < m \<Longrightarrow> 0 < n \<Longrightarrow> gexp m n x 0 = 1"
  by (simp add: gexp_def)

lemma gexp_cancel:
  assumes m: "1 < m" and n: "0 < n" and ord: "x ^ nat n mod m = 1 mod m"
  shows "(gexp m n x a * gexp m n x (- a)) mod m = 1"
  using gexp_add [OF n ord, of a "- a"] gexp_zero [OF m n] by simp

text \<open>
  Binding: where \<open>g\<close> has order exactly \<open>q\<close>, \<^verbatim>\<open>verify\<close> rejects every message that is
  not congruent modulo \<open>q\<close> to the committed one, under the same opening.
\<close>

lemma verify_binding_exact_order:
  assumes sp: "subgroup_params P"
    and ord: "\<And>k. 0 < k \<Longrightarrow> k < q P \<Longrightarrow> g P ^ nat k mod p P \<noteq> 1"
    and c: "commit P m rnd tp = Inr ((c, opn), tp')"
    and ne: "m' mod q P \<noteq> m mod q P"
  shows "verify P c m' opn = Inr False"
proof -
  let ?G = "gexp (p P) (q P) (g P)" and ?H = "gexp (p P) (q P) (h P)"
  let ?r = "randomness opn"
  have pq: "1 < p P" "0 < q P"
    and og: "g P ^ nat (q P) mod p P = 1 mod p P"
    and oh: "h P ^ nat (q P) mod p P = 1 mod p P"
    using sp by (auto simp: subgroup_params_def)
  have "(?G m * ?H ?r) mod p P \<noteq> (?G m' * ?H ?r) mod p P"
  proof
    assume e: "(?G m * ?H ?r) mod p P = (?G m' * ?H ?r) mod p P"
    have cancel: "((?G a * ?H ?r) mod p P * ?H (- ?r)) mod p P = ?G a" for a
    proof -
      have "((?G a * ?H ?r) mod p P * ?H (- ?r)) mod p P
              = (?G a * ((?H ?r * ?H (- ?r)) mod p P)) mod p P"
        by (simp add: mod_mult_left_eq mod_mult_right_eq mult.assoc)
      also have "\<dots> = ?G a" by (simp add: gexp_cancel [OF pq oh])
      finally show ?thesis .
    qed
    from e have "((?G m * ?H ?r) mod p P * ?H (- ?r)) mod p P
                   = ((?G m' * ?H ?r) mod p P * ?H (- ?r)) mod p P" by simp
    then have gm: "?G m = ?G m'" by (simp only: cancel)
    have "?G (m' - m) = (?G m' * ?G (- m)) mod p P"
      using gexp_add [OF pq(2) og, of m' "- m"] by simp
    also have "\<dots> = (?G m * ?G (- m)) mod p P" by (simp add: gm)
    also have "\<dots> = 1" by (rule gexp_cancel [OF pq og])
    finally have one: "g P ^ nat ((m' - m) mod q P) mod p P = 1" by (simp add: gexp_def)
    have "(m' - m) mod q P \<noteq> 0"
      using ne by (metis mod_eq_dvd_iff mod_0_imp_dvd)
    moreover have "0 \<le> (m' - m) mod q P" "(m' - m) mod q P < q P" using pq(2) by simp_all
    ultimately have "g P ^ nat ((m' - m) mod q P) mod p P \<noteq> 1"
      by (intro ord) simp_all
    with one show False by contradiction
  qed
  then show ?thesis
    unfolding commit_shape [OF sp c] by (simp add: verify_eq [OF sp])
qed

end
